theory Spec2Isabelle
  imports Complex_Main
begin

section \<open>The Scaler of pat_coady/utils.py: running mean and variance\<close>

text \<open>
  The class \<open>Scaler\<close> keeps a running per-column mean and population variance of the
  batches handed to \<open>update\<close>, and \<open>get\<close> derives a (scale, offset) pair from them.
  The arithmetic of the source is NumPy's float64 arithmetic. The code is modelled
  twice, with the same control flow, the same operations in the same order and the same
  object:
  \<^item> in exact real arithmetic (\<open>update\<close>, \<open>get\<close>): every finite float is a real number and
    no operation rounds or overflows. This model carries what does not depend on
    rounding: which inputs are absorbed or refused, the lengths, the count, the
    formulas;
  \<^item> in binary64 arithmetic (\<open>f64_update\<close>, \<open>f64_get\<close>): every operation rounds its exact
    result to the nearest double, ties to even, and overflows to an infinity. This
    model carries what the machine computes.
  In both, the values that leave the real numbers (\<open>0/0\<close>, \<open>x/0\<close>, the square root of a
  negative number, \<open>inf - inf\<close>) are kept, because the source produces them on inputs it
  accepts: NumPy returns \<open>nan\<close> or \<open>inf\<close> there with a warning and raises nothing.
\<close>

subsection \<open>Element values\<close>

datatype fl = Fin real | PInf | NInf | NaN

fun fadd :: "fl \<Rightarrow> fl \<Rightarrow> fl" where
  "fadd (Fin a) (Fin b) = Fin (a + b)"
| "fadd NaN _ = NaN"
| "fadd _ NaN = NaN"
| "fadd PInf NInf = NaN"
| "fadd NInf PInf = NaN"
| "fadd PInf _ = PInf"
| "fadd _ PInf = PInf"
| "fadd NInf _ = NInf"
| "fadd _ NInf = NInf"

fun fsub :: "fl \<Rightarrow> fl \<Rightarrow> fl" where
  "fsub (Fin a) (Fin b) = Fin (a - b)"
| "fsub NaN _ = NaN"
| "fsub _ NaN = NaN"
| "fsub PInf PInf = NaN"
| "fsub NInf NInf = NaN"
| "fsub PInf _ = PInf"
| "fsub _ NInf = PInf"
| "fsub NInf _ = NInf"
| "fsub _ PInf = NInf"

text \<open>The infinity of the given sign: \<open>True\<close> is positive.\<close>

definition inf_of :: "bool \<Rightarrow> fl" where
  "inf_of pos = (if pos then PInf else NInf)"

fun fmul :: "fl \<Rightarrow> fl \<Rightarrow> fl" where
  "fmul (Fin a) (Fin b) = Fin (a * b)"
| "fmul NaN _ = NaN"
| "fmul _ NaN = NaN"
| "fmul PInf (Fin b) = (if b = 0 then NaN else inf_of (0 < b))"
| "fmul NInf (Fin b) = (if b = 0 then NaN else inf_of (b < 0))"
| "fmul (Fin a) PInf = (if a = 0 then NaN else inf_of (0 < a))"
| "fmul (Fin a) NInf = (if a = 0 then NaN else inf_of (a < 0))"
| "fmul PInf PInf = PInf"
| "fmul NInf NInf = PInf"
| "fmul PInf NInf = NInf"
| "fmul NInf PInf = NInf"

text \<open>
  Division. A zero divisor is the float \<open>+0.0\<close>: the divisors of the source are the
  integer \<open>m + n\<close>, the sum \<open>sqrt v + 0.1\<close> and the constant \<open>3\<close>, none of which is
  \<open>-0.0\<close>.
\<close>

fun fdiv :: "fl \<Rightarrow> fl \<Rightarrow> fl" where
  "fdiv (Fin a) (Fin b) =
     (if b = 0 then (if a = 0 then NaN else inf_of (0 < a)) else Fin (a / b))"
| "fdiv NaN _ = NaN"
| "fdiv _ NaN = NaN"
| "fdiv (Fin a) PInf = Fin 0"
| "fdiv (Fin a) NInf = Fin 0"
| "fdiv PInf (Fin b) = inf_of (0 \<le> b)"
| "fdiv NInf (Fin b) = inf_of (b < 0)"
| "fdiv PInf PInf = NaN"
| "fdiv PInf NInf = NaN"
| "fdiv NInf PInf = NaN"
| "fdiv NInf NInf = NaN"

fun fsqrt :: "fl \<Rightarrow> fl" where
  "fsqrt (Fin a) = (if a < 0 then NaN else Fin (sqrt a))"
| "fsqrt PInf = PInf"
| "fsqrt NInf = NaN"
| "fsqrt NaN = NaN"

text \<open>\<open>np.maximum\<close> on two elements: \<open>nan\<close> wins, otherwise the larger one.\<close>

fun fmaximum :: "fl \<Rightarrow> fl \<Rightarrow> fl" where
  "fmaximum (Fin a) (Fin b) = Fin (max a b)"
| "fmaximum NaN _ = NaN"
| "fmaximum _ NaN = NaN"
| "fmaximum PInf _ = PInf"
| "fmaximum _ PInf = PInf"
| "fmaximum NInf b = b"
| "fmaximum a NInf = a"

text \<open>The float of a Python integer.\<close>

definition of_pyint :: "int \<Rightarrow> fl" where
  "of_pyint i = Fin (of_int i)"

subsection \<open>Arrays\<close>

text \<open>
  A one-dimensional array is a list of elements. A two-dimensional array of shape
  \<open>(N, ncols)\<close> is its list of \<open>N\<close> rows together with \<open>ncols\<close>, which an array of no
  rows still has. The entries of a batch are real numbers.
\<close>

record ndarray =
  ncols :: nat
  rows :: "real list list"

definition wf_ndarray :: "ndarray \<Rightarrow> bool" where
  "wf_ndarray x = list_all (\<lambda>r. length r = ncols x) (rows x)"

text \<open>\<open>x.shape[0]\<close>\<close>

definition shape0 :: "ndarray \<Rightarrow> int" where
  "shape0 x = int (length (rows x))"

definition column :: "ndarray \<Rightarrow> nat \<Rightarrow> real list" where
  "column x j = map (\<lambda>r. r ! j) (rows x)"

text \<open>The sum of a list of elements, from \<open>0.0\<close>.\<close>

definition fsum :: "fl list \<Rightarrow> fl" where
  "fsum xs = foldl fadd (Fin 0) xs"

text \<open>
  \<open>np.mean\<close> and \<open>np.var\<close> of one column: the sum divided by the number of entries, and
  the mean of the squared deviations from the mean (\<open>ddof = 0\<close>). On a column of no
  entries both divide \<open>0.0\<close> by \<open>0\<close>.
\<close>

definition mean1 :: "real list \<Rightarrow> fl" where
  "mean1 col = fdiv (fsum (map Fin col)) (of_pyint (int (length col)))"

definition var1 :: "real list \<Rightarrow> fl" where
  "var1 col =
     (let arrmean = mean1 col;
          dev = map (\<lambda>a. fsub (Fin a) arrmean) col;
          sq = map (\<lambda>d. fmul d d) dev
      in fdiv (fsum sq) (of_pyint (int (length col))))"

text \<open>\<open>np.mean(x, axis=0)\<close> and \<open>np.var(x, axis=0)\<close>\<close>

definition np_mean :: "ndarray \<Rightarrow> fl list" where
  "np_mean x = map (\<lambda>j. mean1 (column x j)) [0..<ncols x]"

definition np_var :: "ndarray \<Rightarrow> fl list" where
  "np_var x = map (\<lambda>j. var1 (column x j)) [0..<ncols x]"

definition np_square :: "fl list \<Rightarrow> fl list" where
  "np_square a = map (\<lambda>v. fmul v v) a"

definition np_sqrt :: "fl list \<Rightarrow> fl list" where
  "np_sqrt a = map fsqrt a"

text \<open>\<open>np.maximum(c, a)\<close> with a scalar \<open>c\<close>\<close>

definition np_maximum :: "fl \<Rightarrow> fl list \<Rightarrow> fl list" where
  "np_maximum c a = map (\<lambda>v. fmaximum c v) a"

text \<open>An array and a scalar, in either order.\<close>

definition arr_scalar :: "(fl \<Rightarrow> fl \<Rightarrow> fl) \<Rightarrow> fl list \<Rightarrow> fl \<Rightarrow> fl list" where
  "arr_scalar f a c = map (\<lambda>v. f v c) a"

definition scalar_arr :: "(fl \<Rightarrow> fl \<Rightarrow> fl) \<Rightarrow> fl \<Rightarrow> fl list \<Rightarrow> fl list" where
  "scalar_arr f c a = map (\<lambda>v. f c v) a"

text \<open>
  Two one-dimensional arrays, elementwise, under NumPy's broadcasting: the lengths are
  equal, or one of them is 1 and its element is repeated; any other pair of lengths
  raises \<open>ValueError\<close> (operands could not be broadcast together).
\<close>

datatype error = ValueError

definition broadcast :: "(fl \<Rightarrow> fl \<Rightarrow> fl) \<Rightarrow> fl list \<Rightarrow> fl list \<Rightarrow> error + fl list" where
  "broadcast f a b =
     (if length a = length b then Inr (map2 f a b)
      else if length a = 1 then Inr (map (\<lambda>v. f (hd a) v) b)
      else if length b = 1 then Inr (map (\<lambda>v. f v (hd b)) a)
      else Inl ValueError)"

definition and_then :: "error + 'a \<Rightarrow> ('a \<Rightarrow> error + 'b) \<Rightarrow> error + 'b" where
  "and_then r f = (case r of Inl e \<Rightarrow> Inl e | Inr v \<Rightarrow> f v)"

subsection \<open>The class Scaler\<close>

record Scaler =
  vars :: "fl list"
  means :: "fl list"
  m :: int
  n :: int
  first_pass :: bool

definition Scaler_init :: "nat \<Rightarrow> Scaler" where
  "Scaler_init obs_dim =
     \<lparr>vars = replicate obs_dim (Fin 0), means = replicate obs_dim (Fin 0),
      m = 0, n = 0, first_pass = True\<rparr>"

text \<open>
  A method takes the object and returns its outcome together with the object after the
  call. The outcome of \<open>update\<close> is \<open>Inr ()\<close> when it returns and \<open>Inl e\<close> when it raises.
  The local \<open>n\<close> of the source is \<open>k\<close> here, the field \<open>n\<close> keeping its name.

  In the second branch the right-hand sides of lines 50 and 51 to 53 are evaluated
  before any field is assigned, and nothing after line 53 can raise.
\<close>

definition new_means_expr :: "Scaler \<Rightarrow> fl list \<Rightarrow> int \<Rightarrow> error + fl list" where
  "new_means_expr self new_data_mean k =
     and_then (broadcast fadd (arr_scalar fmul (means self) (of_pyint (m self)))
                              (arr_scalar fmul new_data_mean (of_pyint k)))
       (\<lambda>s. Inr (arr_scalar fdiv s (of_pyint (m self + k))))"

definition vars_expr ::
  "Scaler \<Rightarrow> fl list \<Rightarrow> fl list \<Rightarrow> fl list \<Rightarrow> int \<Rightarrow> error + fl list" where
  "vars_expr self new_data_var new_data_mean_sq new_means k =
     and_then (broadcast fadd (vars self) (np_square (means self))) (\<lambda>t1.
     and_then (broadcast fadd new_data_var new_data_mean_sq) (\<lambda>t2.
     and_then (broadcast fadd (scalar_arr fmul (of_pyint (m self)) t1)
                              (scalar_arr fmul (of_pyint k) t2)) (\<lambda>t3.
     broadcast fsub (arr_scalar fdiv t3 (of_pyint (m self + k))) (np_square new_means))))"

definition update :: "Scaler \<Rightarrow> ndarray \<Rightarrow> (error + unit) \<times> Scaler" where
  "update self x =
     (if first_pass self then
        (Inr (), self\<lparr>means := np_mean x, vars := np_var x, m := shape0 x,
                       first_pass := False\<rparr>)
      else
        let k = shape0 x;
            new_data_var = np_var x;
            new_data_mean = np_mean x;
            new_data_mean_sq = np_square new_data_mean
        in case new_means_expr self new_data_mean k of
             Inl e \<Rightarrow> (Inl e, self)
           | Inr new_means \<Rightarrow>
               (case vars_expr self new_data_var new_data_mean_sq new_means k of
                  Inl e \<Rightarrow> (Inl e, self)
                | Inr v \<Rightarrow>
                    (Inr (), self\<lparr>vars := np_maximum (Fin 0) v, means := new_means,
                                   m := m self + k\<rparr>)))"

text \<open>\<open>get\<close> returns the pair (scale, offset) and assigns nothing.\<close>

definition get :: "Scaler \<Rightarrow> (fl list \<times> fl list) \<times> Scaler" where
  "get self =
     ((arr_scalar fdiv
         (scalar_arr fdiv (Fin 1) (arr_scalar fadd (np_sqrt (vars self)) (Fin (1 / 10))))
         (Fin 3),
       means self), self)"

subsection \<open>Batches, sequences of calls and reachable objects\<close>

text \<open>A batch for a Scaler of \<open>d\<close> columns: an array of shape \<open>(N, d)\<close>, and one with \<open>N \<ge> 1\<close>.\<close>

definition has_width :: "nat \<Rightarrow> ndarray \<Rightarrow> bool" where
  "has_width d x \<longleftrightarrow> wf_ndarray x \<and> ncols x = d"

definition valid_batch :: "nat \<Rightarrow> ndarray \<Rightarrow> bool" where
  "valid_batch d x \<longleftrightarrow> has_width d x \<and> rows x \<noteq> []"

definition nonempty :: "ndarray \<Rightarrow> bool" where
  "nonempty x \<longleftrightarrow> rows x \<noteq> []"

definition any_batch :: "ndarray \<Rightarrow> bool" where
  "any_batch x \<longleftrightarrow> True"

text \<open>The caller's loop \<open>for x in bs: scaler.update(x)\<close>, which the first exception ends.\<close>

fun feed :: "Scaler \<Rightarrow> ndarray list \<Rightarrow> (error + unit) \<times> Scaler" where
  "feed self [] = (Inr (), self)"
| "feed self (x # xs) =
     (case update self x of
        (Inl e, self') \<Rightarrow> (Inl e, self')
      | (Inr u, self') \<Rightarrow> feed self' xs)"

text \<open>
  The objects a caller can hold: \<open>Scaler(d)\<close>, and the object after any call of
  \<open>update\<close> on such an object with a batch satisfying \<open>P\<close>, whether the call returned
  or raised.
\<close>

inductive reachable :: "(ndarray \<Rightarrow> bool) \<Rightarrow> nat \<Rightarrow> Scaler \<Rightarrow> bool" for P d where
  construct: "reachable P d (Scaler_init d)"
| call: "reachable P d s \<Longrightarrow> P x \<Longrightarrow> update s x = (r, s') \<Longrightarrow> reachable P d s'"

subsection \<open>Population statistics of all the data\<close>

text \<open>
  The statistics the running values are compared with: the population mean of a column
  of real numbers, its population variance (divisor the number of entries), and the
  array of all rows seen so far, \<open>np.concatenate\<close> of the batches along axis 0.
\<close>

definition population_mean :: "real list \<Rightarrow> real" where
  "population_mean col = sum_list col / real (length col)"

definition population_variance :: "real list \<Rightarrow> real" where
  "population_variance col =
     sum_list (map (\<lambda>a. (a - population_mean col)\<^sup>2) col) / real (length col)"

definition append_rows :: "ndarray \<Rightarrow> ndarray \<Rightarrow> ndarray" where
  "append_rows a b = \<lparr>ncols = ncols a, rows = rows a @ rows b\<rparr>"

definition concatenate :: "ndarray list \<Rightarrow> error + ndarray" where
  "concatenate bs =
     (case bs of
        [] \<Rightarrow> Inl ValueError
      | b # rest \<Rightarrow>
          if list_all (\<lambda>c. ncols c = ncols b) rest then Inr (foldl append_rows b rest)
          else Inl ValueError)"

text \<open>The object holds exactly the statistics of the array \<open>a\<close>.\<close>

definition tracks :: "Scaler \<Rightarrow> ndarray \<Rightarrow> bool" where
  "tracks s a \<longleftrightarrow>
     \<not> first_pass s \<and> m s = shape0 a \<and> means s = np_mean a \<and> vars s = np_var a"

subsection \<open>Binary64 arithmetic\<close>

text \<open>
  A double is \<open>Fin r\<close> with \<open>r = k * 2^e\<close>, \<open>|k| < 2^53\<close>, \<open>-1074 \<le> e \<le> 971\<close>, or an
  infinity, or \<open>nan\<close>. The zero has no sign here; the source divides by the integer
  \<open>m + n\<close>, by \<open>sqrt v + 0.1\<close> and by \<open>3\<close> only, none of which is \<open>-0.0\<close>.
\<close>

definition pow2 :: "int \<Rightarrow> real" where
  "pow2 e = (if 0 \<le> e then 2 ^ nat e else 1 / 2 ^ nat (- e))"

text \<open>The nearest integer, the even one of two that are equally near.\<close>

definition round_even :: "real \<Rightarrow> int" where
  "round_even q =
     (let f = \<lfloor>q\<rfloor>; r = q - of_int f
      in if r < 1 / 2 then f else if 1 / 2 < r then f + 1 else if even f then f else f + 1)"

text \<open>
  The exponent of the last place of the doubles around \<open>x > 0\<close>: 52 below the exponent
  of \<open>x\<close>, and \<open>-1074\<close> throughout the subnormal range.
\<close>

definition ulp_exp :: "real \<Rightarrow> int" where
  "ulp_exp x = max \<lfloor>log 2 x\<rfloor> (- 1022) - 52"

text \<open>
  Rounding to nearest, ties to even: \<open>x > 0\<close> goes to the nearest multiple of its last
  place, and to \<open>inf\<close> when that multiple is \<open>2^1024\<close> or more.
\<close>

definition rnd_pos :: "real \<Rightarrow> fl" where
  "rnd_pos x =
     (let e = ulp_exp x; r = of_int (round_even (x / pow2 e)) * pow2 e
      in if 2 ^ 1024 \<le> r then PInf else Fin r)"

fun fneg :: "fl \<Rightarrow> fl" where
  "fneg (Fin a) = Fin (- a)"
| "fneg PInf = NInf"
| "fneg NInf = PInf"
| "fneg NaN = NaN"

definition rnd :: "real \<Rightarrow> fl" where
  "rnd x = (if x = 0 then Fin 0 else if 0 < x then rnd_pos x else fneg (rnd_pos (- x)))"

text \<open>
  A binary64 operation is the exact operation on the elements, with its cases for the
  infinities and \<open>nan\<close>, followed by the rounding of a finite result.
\<close>

fun round_fl :: "fl \<Rightarrow> fl" where
  "round_fl (Fin a) = rnd a"
| "round_fl PInf = PInf"
| "round_fl NInf = NInf"
| "round_fl NaN = NaN"

definition f64_add :: "fl \<Rightarrow> fl \<Rightarrow> fl" where
  "f64_add a b = round_fl (fadd a b)"

definition f64_sub :: "fl \<Rightarrow> fl \<Rightarrow> fl" where
  "f64_sub a b = round_fl (fsub a b)"

definition f64_mul :: "fl \<Rightarrow> fl \<Rightarrow> fl" where
  "f64_mul a b = round_fl (fmul a b)"

definition f64_div :: "fl \<Rightarrow> fl \<Rightarrow> fl" where
  "f64_div a b = round_fl (fdiv a b)"

definition f64_sqrt :: "fl \<Rightarrow> fl" where
  "f64_sqrt a = round_fl (fsqrt a)"

text \<open>The double of a Python integer.\<close>

definition f64_of_pyint :: "int \<Rightarrow> fl" where
  "f64_of_pyint i = rnd (of_int i)"

subsection \<open>The class Scaler in binary64\<close>

text \<open>
  A float64 array of shape \<open>(N, f64_ncols)\<close>: its entries are doubles, infinities and
  \<open>nan\<close> included. The sum along axis 0 adds the rows one after the other, which is
  the order of NumPy's reduction over the rows of an array of two or more columns, and
  of every array of fewer than eight rows; from eight rows of a single column on,
  NumPy adds in blocks, which the model does not follow. \<open>np.var\<close> subtracts the
  rounded mean, squares, sums and divides, each step rounded. \<open>np.maximum\<close>, the
  broadcasting and the object are those of the exact model; the literal \<open>0.1\<close> is the
  double nearest to one tenth.
\<close>

record f64_ndarray =
  f64_ncols :: nat
  f64_rows :: "fl list list"

definition f64_shape0 :: "f64_ndarray \<Rightarrow> int" where
  "f64_shape0 x = int (length (f64_rows x))"

definition f64_column :: "f64_ndarray \<Rightarrow> nat \<Rightarrow> fl list" where
  "f64_column x j = map (\<lambda>r. r ! j) (f64_rows x)"

definition f64_sum :: "fl list \<Rightarrow> fl" where
  "f64_sum xs = foldl f64_add (Fin 0) xs"

definition f64_mean1 :: "fl list \<Rightarrow> fl" where
  "f64_mean1 col = f64_div (f64_sum col) (f64_of_pyint (int (length col)))"

definition f64_var1 :: "fl list \<Rightarrow> fl" where
  "f64_var1 col =
     (let arrmean = f64_mean1 col;
          dev = map (\<lambda>a. f64_sub a arrmean) col;
          sq = map (\<lambda>d. f64_mul d d) dev
      in f64_div (f64_sum sq) (f64_of_pyint (int (length col))))"

definition f64_np_mean :: "f64_ndarray \<Rightarrow> fl list" where
  "f64_np_mean x = map (\<lambda>j. f64_mean1 (f64_column x j)) [0..<f64_ncols x]"

definition f64_np_var :: "f64_ndarray \<Rightarrow> fl list" where
  "f64_np_var x = map (\<lambda>j. f64_var1 (f64_column x j)) [0..<f64_ncols x]"

definition f64_np_square :: "fl list \<Rightarrow> fl list" where
  "f64_np_square a = map (\<lambda>v. f64_mul v v) a"

definition f64_np_sqrt :: "fl list \<Rightarrow> fl list" where
  "f64_np_sqrt a = map f64_sqrt a"

definition f64_new_means_expr :: "Scaler \<Rightarrow> fl list \<Rightarrow> int \<Rightarrow> error + fl list" where
  "f64_new_means_expr self new_data_mean k =
     and_then (broadcast f64_add (arr_scalar f64_mul (means self) (f64_of_pyint (m self)))
                                 (arr_scalar f64_mul new_data_mean (f64_of_pyint k)))
       (\<lambda>s. Inr (arr_scalar f64_div s (f64_of_pyint (m self + k))))"

definition f64_vars_expr ::
  "Scaler \<Rightarrow> fl list \<Rightarrow> fl list \<Rightarrow> fl list \<Rightarrow> int \<Rightarrow> error + fl list" where
  "f64_vars_expr self new_data_var new_data_mean_sq new_means k =
     and_then (broadcast f64_add (vars self) (f64_np_square (means self))) (\<lambda>t1.
     and_then (broadcast f64_add new_data_var new_data_mean_sq) (\<lambda>t2.
     and_then (broadcast f64_add (scalar_arr f64_mul (f64_of_pyint (m self)) t1)
                                 (scalar_arr f64_mul (f64_of_pyint k) t2)) (\<lambda>t3.
     broadcast f64_sub (arr_scalar f64_div t3 (f64_of_pyint (m self + k)))
                       (f64_np_square new_means))))"

definition f64_update :: "Scaler \<Rightarrow> f64_ndarray \<Rightarrow> (error + unit) \<times> Scaler" where
  "f64_update self x =
     (if first_pass self then
        (Inr (), self\<lparr>means := f64_np_mean x, vars := f64_np_var x, m := f64_shape0 x,
                       first_pass := False\<rparr>)
      else
        let k = f64_shape0 x;
            new_data_var = f64_np_var x;
            new_data_mean = f64_np_mean x;
            new_data_mean_sq = f64_np_square new_data_mean
        in case f64_new_means_expr self new_data_mean k of
             Inl e \<Rightarrow> (Inl e, self)
           | Inr new_means \<Rightarrow>
               (case f64_vars_expr self new_data_var new_data_mean_sq new_means k of
                  Inl e \<Rightarrow> (Inl e, self)
                | Inr v \<Rightarrow>
                    (Inr (), self\<lparr>vars := np_maximum (Fin 0) v, means := new_means,
                                   m := m self + k\<rparr>)))"

definition f64_get :: "Scaler \<Rightarrow> (fl list \<times> fl list) \<times> Scaler" where
  "f64_get self =
     ((arr_scalar f64_div
         (scalar_arr f64_div (Fin 1)
            (arr_scalar f64_add (f64_np_sqrt (vars self)) (rnd (1 / 10))))
         (Fin 3),
       means self), self)"


section \<open>Rounding to binary64\<close>

lemma pow2_powr: "pow2 e = 2 powr (of_int e)"
proof (cases "0 \<le> e")
  case True
  then show ?thesis by (simp add: pow2_def powr_realpow [symmetric])
next
  case False
  then have r: "real (nat (- e)) = - of_int e" by simp
  have "(2::real) ^ nat (- e) = 2 powr (real (nat (- e)))"
    by (simp add: powr_realpow)
  then have "(2::real) ^ nat (- e) = 2 powr (- of_int e)" by (simp only: r)
  then show ?thesis using False by (simp add: pow2_def powr_minus_divide)
qed

lemma pow2_pos: "0 < pow2 e"
  by (simp add: pow2_powr)

lemma pow2_add: "pow2 (a + b) = pow2 a * pow2 b"
  by (simp add: pow2_powr powr_add)

lemma pow2_mono: "a \<le> b \<Longrightarrow> pow2 a \<le> pow2 b"
  by (simp add: pow2_powr)

lemma pow2_nat: "pow2 (int k) = 2 ^ k"
  by (simp add: pow2_def)

lemma floor_log2_bounds:
  assumes "0 < x"
  shows "pow2 \<lfloor>log 2 x\<rfloor> \<le> x" and "x < pow2 (\<lfloor>log 2 x\<rfloor> + 1)"
proof -
  have "2 powr (of_int \<lfloor>log 2 x\<rfloor>) \<le> 2 powr (log 2 x)"
    by (simp add: powr_le_cancel_iff)
  then show "pow2 \<lfloor>log 2 x\<rfloor> \<le> x" using assms by (simp add: pow2_powr)
  have "log 2 x < of_int (\<lfloor>log 2 x\<rfloor> + 1)" by linarith
  then have "2 powr (log 2 x) < 2 powr (of_int (\<lfloor>log 2 x\<rfloor> + 1))"
    by (simp only: powr_less_cancel_iff)
  then show "x < pow2 (\<lfloor>log 2 x\<rfloor> + 1)" using assms by (simp add: pow2_powr)
qed

lemma floor_log2_unique:
  assumes "0 < x" "pow2 E \<le> x" "x < pow2 (E + 1)"
  shows "\<lfloor>log 2 x\<rfloor> = E"
proof (rule floor_unique)
  show "of_int E \<le> log 2 x"
    using assms by (simp add: pow2_powr le_log_iff)
  show "log 2 x < of_int E + 1"
    using assms by (simp add: pow2_powr log_less_iff)
qed

lemma round_even_cases: "round_even q = \<lfloor>q\<rfloor> \<or> round_even q = \<lfloor>q\<rfloor> + 1"
  by (simp add: round_even_def Let_def)

lemma round_even_of_int: "round_even (of_int j) = j"
  by (simp add: round_even_def)

lemma round_even_ge:
  assumes "of_int j \<le> q"
  shows "j \<le> round_even q"
proof -
  have "j \<le> \<lfloor>q\<rfloor>" using assms by (simp add: le_floor_iff)
  with round_even_cases [of q] show ?thesis by auto
qed

lemma round_even_le:
  assumes "q \<le> of_int j"
  shows "round_even q \<le> j"
proof (cases "q = of_int \<lfloor>q\<rfloor>")
  case True
  then have "round_even q = \<lfloor>q\<rfloor>" by (simp add: round_even_def)
  moreover have "\<lfloor>q\<rfloor> \<le> j" using assms by (simp add: floor_le_iff)
  ultimately show ?thesis by simp
next
  case False
  then have "of_int \<lfloor>q\<rfloor> < q" using of_int_floor_le [of q] by linarith
  with assms have "of_int \<lfloor>q\<rfloor> < (of_int j :: real)" by linarith
  then have "\<lfloor>q\<rfloor> < j" by simp
  with round_even_cases [of q] show ?thesis by auto
qed

lemma real_less_pow2: "k < 2 ^ j \<Longrightarrow> real_of_int k < 2 ^ j"
proof -
  assume "k < 2 ^ j"
  then have "real_of_int k < real_of_int (2 ^ j)" by (simp only: of_int_less_iff)
  then show ?thesis by simp
qed

lemma real_pow2_le: "2 ^ j \<le> k \<Longrightarrow> 2 ^ j \<le> real_of_int k"
proof -
  assume "2 ^ j \<le> k"
  then have "real_of_int (2 ^ j) \<le> real_of_int k" by (simp only: of_int_le_iff)
  then show ?thesis by simp
qed

lemma ulp_exp_eq:
  assumes "0 < x" "pow2 E \<le> x" "x < pow2 (E + 1)"
  shows "ulp_exp x = max E (- 1022) - 52"
  by (simp add: ulp_exp_def floor_log2_unique [OF assms])

lemma rnd_eval:
  assumes "0 < x" "pow2 E \<le> x" "x < pow2 (E + 1)"
  shows "rnd x =
     (if 2 ^ 1024 \<le> of_int (round_even (x / pow2 (max E (- 1022) - 52)))
                       * pow2 (max E (- 1022) - 52)
      then PInf
      else Fin (of_int (round_even (x / pow2 (max E (- 1022) - 52)))
                * pow2 (max E (- 1022) - 52)))"
  using assms(1) by (simp add: rnd_def rnd_pos_def Let_def ulp_exp_eq [OF assms])

text \<open>The leading binade: in the normal range the quotient is at least \<open>2^52\<close>.\<close>

lemma quotient_normal:
  assumes "0 < x" "- 1074 < ulp_exp x"
  shows "2 ^ 52 \<le> x / pow2 (ulp_exp x)"
proof -
  let ?E = "\<lfloor>log 2 x\<rfloor>"
  have e: "ulp_exp x = ?E - 52" using assms(2) by (simp add: ulp_exp_def max_def split: if_splits)
  have "pow2 (ulp_exp x) * 2 ^ 52 = pow2 ?E"
    unfolding e using pow2_add [of "?E - 52" 52] by (simp add: pow2_def)
  also have "\<dots> \<le> x" by (rule floor_log2_bounds [OF assms(1)])
  finally show ?thesis using pow2_pos [of "ulp_exp x"]
    by (simp add: pos_le_divide_eq mult.commute)
qed

lemma ulp_exp_ge: "- 1074 \<le> ulp_exp x"
  by (simp add: ulp_exp_def)

text \<open>
  A number \<open>k * 2^a\<close> with \<open>k < 2^53\<close> and \<open>a \<ge> -1074\<close> is a double when it is below
  \<open>2^1024\<close>. Rounding does not cross such a number.
\<close>

lemma multiple_of_ulp:
  assumes "e \<le> a"
  shows "of_int k * pow2 a = of_int (k * 2 ^ nat (a - e)) * pow2 e"
proof -
  have "pow2 a = pow2 (a - e) * pow2 e" using pow2_add [of "a - e" e] by simp
  moreover have "pow2 (a - e) = 2 ^ nat (a - e)" using assms by (simp add: pow2_def)
  ultimately show ?thesis by simp
qed

lemma below_binade:
  assumes "a < e" "k < 2 ^ 53"
  shows "of_int k * pow2 a < pow2 (e + 52)"
proof -
  have "of_int k * pow2 a < 2 ^ 53 * pow2 a"
    using real_less_pow2 [OF assms(2)] pow2_pos [of a] by simp
  also have "\<dots> = pow2 (a + 53)" using pow2_add [of a 53] by (simp add: pow2_def)
  also have "\<dots> \<le> pow2 (e + 52)" using assms(1) by (intro pow2_mono) simp
  finally show ?thesis .
qed

lemma rnd_pos_ge:
  assumes x: "0 < x" and k: "k < 2 ^ 53" and a: "- 1074 \<le> a"
    and c: "of_int k * pow2 a \<le> x"
  shows "rnd_pos x = PInf \<or> (\<exists>r. rnd_pos x = Fin r \<and> of_int k * pow2 a \<le> r)"
proof -
  let ?e = "ulp_exp x"
  let ?n = "round_even (x / pow2 ?e)"
  have "of_int k * pow2 a \<le> of_int ?n * pow2 ?e"
  proof (cases "?e \<le> a")
    case True
    let ?j = "k * 2 ^ nat (a - ?e)"
    have m: "of_int k * pow2 a = of_int ?j * pow2 ?e" by (rule multiple_of_ulp [OF True])
    have "of_int ?j * pow2 ?e \<le> x" using c by (simp only: m)
    then have "of_int ?j \<le> x / pow2 ?e"
      by (simp only: pos_le_divide_eq [OF pow2_pos])
    then have "?j \<le> ?n" by (rule round_even_ge)
    then have "(of_int ?j :: real) \<le> of_int ?n" by (simp only: of_int_le_iff)
    then show ?thesis unfolding m using pow2_pos [of ?e] by (simp add: mult_right_mono)
  next
    case False
    then have lt: "a < ?e" by simp
    then have "- 1074 < ?e" using a by simp
    from quotient_normal [OF x this] have "of_int (2 ^ 52) \<le> x / pow2 ?e" by simp
    then have "2 ^ 52 \<le> ?n" by (rule round_even_ge)
    then have "(2 ^ 52 :: real) \<le> of_int ?n" by (rule real_pow2_le)
    then have "2 ^ 52 * pow2 ?e \<le> of_int ?n * pow2 ?e"
      using pow2_pos [of ?e] by (simp add: mult_right_mono)
    moreover have "2 ^ 52 * pow2 ?e = pow2 (?e + 52)"
      using pow2_add [of ?e 52] by (simp add: pow2_def)
    ultimately show ?thesis using below_binade [OF lt k] by linarith
  qed
  then show ?thesis by (simp add: rnd_pos_def Let_def)
qed

lemma rnd_pos_le:
  assumes x: "0 < x" and k: "k < 2 ^ 53" and a: "- 1074 \<le> a"
    and c: "x \<le> of_int k * pow2 a" and b: "of_int k * pow2 a < 2 ^ 1024"
  shows "\<exists>r. rnd_pos x = Fin r \<and> 0 \<le> r \<and> r \<le> of_int k * pow2 a"
proof -
  let ?e = "ulp_exp x"
  let ?n = "round_even (x / pow2 ?e)"
  have e: "?e \<le> a"
  proof (rule ccontr)
    assume "\<not> ?e \<le> a"
    then have lt: "a < ?e" by simp
    then have n: "- 1074 < ?e" using a by simp
    then have "?e = \<lfloor>log 2 x\<rfloor> - 52" by (simp add: ulp_exp_def max_def split: if_splits)
    then have "pow2 (?e + 52) \<le> x" using floor_log2_bounds(1) [OF x] by simp
    with below_binade [OF lt k] c show False by linarith
  qed
  let ?j = "k * 2 ^ nat (a - ?e)"
  have m: "of_int k * pow2 a = of_int ?j * pow2 ?e" by (rule multiple_of_ulp [OF e])
  have "x \<le> of_int ?j * pow2 ?e" using c by (simp only: m)
  then have "x / pow2 ?e \<le> of_int ?j"
    by (simp only: pos_divide_le_eq [OF pow2_pos])
  then have "?n \<le> ?j" by (rule round_even_le)
  then have "(of_int ?n :: real) \<le> of_int ?j" by (simp only: of_int_le_iff)
  then have le: "of_int ?n * pow2 ?e \<le> of_int k * pow2 a"
    unfolding m using pow2_pos [of ?e] by (simp add: mult_right_mono)
  have "of_int 0 \<le> x / pow2 ?e" using x pow2_pos [of ?e] by simp
  then have "0 \<le> ?n" by (rule round_even_ge)
  then have "0 \<le> of_int ?n * pow2 ?e" using pow2_pos [of ?e] by simp
  with le b show ?thesis by (simp add: rnd_pos_def Let_def)
qed



lemma rnd_pos_exact:
  assumes "0 < k" "k < 2 ^ 53" "- 1074 \<le> a" "of_int k * pow2 a < 2 ^ 1024"
  shows "rnd_pos (of_int k * pow2 a) = Fin (of_int k * pow2 a)"
proof -
  have x: "0 < of_int k * pow2 a" using assms(1) pow2_pos [of a] by simp
  from rnd_pos_le [OF x assms(2,3) order_refl assms(4)] obtain r where
    r: "rnd_pos (of_int k * pow2 a) = Fin r" "r \<le> of_int k * pow2 a" by blast
  from rnd_pos_ge [OF x assms(2,3) order_refl] r show ?thesis by auto
qed

text \<open>Doubles are left as they are.\<close>

lemma rnd_exact:
  assumes "\<bar>k\<bar> < 2 ^ 53" "- 1074 \<le> a" "\<bar>of_int k * pow2 a\<bar> < 2 ^ 1024"
  shows "rnd (of_int k * pow2 a) = Fin (of_int k * pow2 a)"
proof -
  consider "k = 0" | "0 < k" | "k < 0" by linarith
  then show ?thesis
  proof cases
    case 1
    then show ?thesis by (simp add: rnd_def)
  next
    case 2
    then have "0 < of_int k * pow2 a" using pow2_pos [of a] by simp
    moreover have "rnd_pos (of_int k * pow2 a) = Fin (of_int k * pow2 a)"
      using assms 2 by (intro rnd_pos_exact) simp_all
    ultimately show ?thesis by (simp add: rnd_def)
  next
    case 3
    then have neg: "of_int k * pow2 a < 0" using pow2_pos [of a] by (simp add: mult_neg_pos)
    have "rnd_pos (of_int (- k) * pow2 a) = Fin (of_int (- k) * pow2 a)"
      using assms 3 by (intro rnd_pos_exact) simp_all
    then show ?thesis using neg by (simp add: rnd_def)
  qed
qed

lemma rnd_of_int: "\<bar>k\<bar> < 2 ^ 53 \<Longrightarrow> rnd (of_int k) = Fin (of_int k)"
proof -
  assume k: "\<bar>k\<bar> < 2 ^ 53"
  then have "k < 2 ^ 53" "- k < 2 ^ 53" by simp_all
  then have "real_of_int k < 2 ^ 53" "real_of_int (- k) < 2 ^ 53"
    by (simp_all only: real_less_pow2)
  then have "\<bar>real_of_int k\<bar> < 2 ^ 53" by simp
  moreover have "(2 ^ 53 :: real) < 2 ^ 1024" by (rule power_strict_increasing) simp_all
  ultimately have "\<bar>of_int k * pow2 0\<bar> < 2 ^ 1024" by (simp add: pow2_def)
  from rnd_exact [OF k _ this] show ?thesis by (simp add: pow2_def)
qed

lemma rnd_overflow:
  assumes "2 ^ 1024 \<le> x"
  shows "rnd x = PInf"
proof -
  have x: "0 < x" using assms by (rule less_le_trans [rotated]) simp
  let ?E = "\<lfloor>log 2 x\<rfloor>"
  have p: "pow2 1024 \<le> x" using assms by (simp add: pow2_def)
  have E: "1024 \<le> ?E"
  proof (rule ccontr)
    assume "\<not> 1024 \<le> ?E"
    then have "?E + 1 \<le> 1024" by simp
    then have "pow2 (?E + 1) \<le> pow2 1024" by (rule pow2_mono)
    with floor_log2_bounds(2) [OF x] p show False by linarith
  qed
  then have e: "ulp_exp x = ?E - 52" unfolding ulp_exp_def by linarith
  have "- 1074 < ulp_exp x" using e E by linarith
  from quotient_normal [OF x this] have "of_int (2 ^ 52) \<le> x / pow2 (ulp_exp x)" by simp
  then have "2 ^ 52 \<le> round_even (x / pow2 (ulp_exp x))" by (rule round_even_ge)
  then have "(2 ^ 52 :: real) \<le> of_int (round_even (x / pow2 (ulp_exp x)))"
    by (rule real_pow2_le)
  then have "2 ^ 52 * pow2 (ulp_exp x)
             \<le> of_int (round_even (x / pow2 (ulp_exp x))) * pow2 (ulp_exp x)"
    using pow2_pos [of "ulp_exp x"] by (simp add: mult_right_mono)
  moreover have "2 ^ 52 * pow2 (ulp_exp x) = pow2 ?E"
    unfolding e using pow2_add [of "?E - 52" 52] by (simp add: pow2_def)
  moreover have "pow2 1024 \<le> pow2 ?E" using E by (rule pow2_mono)
  ultimately have "2 ^ 1024 \<le> of_int (round_even (x / pow2 (ulp_exp x))) * pow2 (ulp_exp x)"
    by (simp add: pow2_def)
  then show ?thesis using x by (simp add: rnd_def rnd_pos_def Let_def)
qed

lemma rnd_0: "rnd 0 = Fin 0"
  by (simp add: rnd_def)

lemma rnd_1: "rnd 1 = Fin 1"
  using rnd_of_int [of 1] by simp

lemma rnd_numeral: "numeral w < (2 ^ 53 :: int) \<Longrightarrow> rnd (numeral w) = Fin (numeral w)"
  using rnd_of_int [of "numeral w"] by simp

lemma rnd_neg_numeral:
  "numeral w < (2 ^ 53 :: int) \<Longrightarrow> rnd (- numeral w) = Fin (- numeral w)"
  using rnd_of_int [of "- numeral w"] by simp

lemma pow2_below_overflow: "a \<le> 1023 \<Longrightarrow> pow2 a < 2 ^ 1024"
proof -
  assume "a \<le> 1023"
  then have "pow2 a \<le> pow2 1023" by (rule pow2_mono)
  also have "\<dots> = 2 ^ 1023" by (simp add: pow2_def)
  also have "\<dots> < (2 ^ 1024 :: real)" by (rule power_strict_increasing) simp_all
  finally show ?thesis .
qed

lemma rnd_pow2: "- 1074 \<le> a \<Longrightarrow> a \<le> 1023 \<Longrightarrow> rnd (pow2 a) = Fin (pow2 a)"
  using rnd_exact [of 1 a] pow2_below_overflow [of a] pow2_pos [of a] by simp

lemma rnd_neg_pow2: "- 1074 \<le> a \<Longrightarrow> a \<le> 1023 \<Longrightarrow> rnd (- pow2 a) = Fin (- pow2 a)"
  using rnd_exact [of "- 1" a] pow2_below_overflow [of a] pow2_pos [of a] by simp

lemma rnd_pow2_overflow: "1024 \<le> a \<Longrightarrow> rnd (pow2 a) = PInf"
proof -
  assume "1024 \<le> a"
  then have "pow2 1024 \<le> pow2 a" by (rule pow2_mono)
  then have "2 ^ 1024 \<le> pow2 a" by (simp add: pow2_def)
  then show ?thesis by (rule rnd_overflow)
qed

lemma pow2_double: "pow2 a + pow2 a = pow2 (a + 1)"
  using pow2_add [of a 1] by (simp add: pow2_def)

lemma pow2_times: "pow2 a * pow2 b = pow2 (a + b)"
  by (simp add: pow2_add)

lemma pow2_half: "pow2 a / 2 = pow2 (a - 1)"
  using pow2_add [of "a - 1" 1] by (simp add: pow2_def)

lemma pow2_quarter: "pow2 a / 4 = pow2 (a - 2)"
  using pow2_add [of "a - 2" 2] by (simp add: pow2_def)

lemma pow2_twice: "pow2 a * 2 = pow2 (a + 1)" "2 * pow2 a = pow2 (a + 1)"
  using pow2_add [of a 1] by (simp_all add: pow2_def)

lemma rnd_tenth: "rnd (1 / 10) = Fin (3602879701896397 / 36028797018963968)"
  by (subst rnd_eval [where E = "- 4"]) (simp_all add: pow2_def round_even_def)

lemma fneg_fneg: "fneg (fneg a) = a"
  by (cases a) simp_all

lemma rnd_minus: "rnd (- x) = fneg (rnd x)"
  by (simp add: rnd_def fneg_fneg)

lemma rnd_ge:
  assumes "0 < x" "k < 2 ^ 53" "- 1074 \<le> a" "of_int k * pow2 a \<le> x"
  shows "rnd x = PInf \<or> (\<exists>r. rnd x = Fin r \<and> of_int k * pow2 a \<le> r)"
  using rnd_pos_ge [OF assms] assms(1) by (simp add: rnd_def)




text \<open>The roundings that the evaluations below go through.\<close>

lemma rounded_1: "rnd (3602879701896397 / 36028797018963968) = Fin (3602879701896397 / 36028797018963968)"
  by (subst rnd_eval [where E = "- 4"]) (simp_all add: pow2_def round_even_def)

lemma rounded_2: "rnd (36028797018963968 / 3602879701896397) = Fin 10"
  by (subst rnd_eval [where E = "3"]) (simp_all add: pow2_def round_even_def)

lemma rounded_3: "rnd (10 / 3) = Fin (7505999378950827 / 2251799813685248)"
  by (subst rnd_eval [where E = "1"]) (simp_all add: pow2_def round_even_def)

lemma rounded_4: "rnd (3602879701896397 / 18014398509481984) = Fin (3602879701896397 / 18014398509481984)"
  by (subst rnd_eval [where E = "- 3"]) (simp_all add: pow2_def round_even_def)

lemma rounded_5: "rnd (10808639105689191 / 36028797018963968) = Fin (1351079888211149 / 4503599627370496)"
  by (subst rnd_eval [where E = "- 2"]) (simp_all add: pow2_def round_even_def)

lemma rounded_6: "rnd (1351079888211149 / 13510798882111488) = Fin (7205759403792795 / 72057594037927936)"
  by (subst rnd_eval [where E = "- 4"]) (simp_all add: pow2_def round_even_def)

lemma rounded_7: "rnd (1 / 72057594037927936) = Fin (1 / 72057594037927936)"
  by (subst rnd_eval [where E = "- 56"]) (simp_all add: pow2_def round_even_def)

lemma rounded_8: "rnd (1 / 5192296858534827628530496329220096) = Fin (1 / 5192296858534827628530496329220096)"
  by (subst rnd_eval [where E = "- 112"]) (simp_all add: pow2_def round_even_def)

lemma rounded_9: "rnd (1 / 2596148429267413814265248164610048) = Fin (1 / 2596148429267413814265248164610048)"
  by (subst rnd_eval [where E = "- 111"]) (simp_all add: pow2_def round_even_def)

lemma rounded_10: "rnd (3 / 5192296858534827628530496329220096) = Fin (3 / 5192296858534827628530496329220096)"
  by (subst rnd_eval [where E = "- 111"]) (simp_all add: pow2_def round_even_def)

lemma rounded_11: "rnd (7205759403792795 / 72057594037927936) = Fin (7205759403792795 / 72057594037927936)"
  by (subst rnd_eval [where E = "- 4"]) (simp_all add: pow2_def round_even_def)

lemma rounded_12: "rnd (72057594037927936 / 7205759403792795) = Fin (5629499534213119 / 562949953421312)"
  by (subst rnd_eval [where E = "3"]) (simp_all add: pow2_def round_even_def)

lemma rounded_13: "rnd (5629499534213119 / 1688849860263936) = Fin (7505999378950825 / 2251799813685248)"
  by (subst rnd_eval [where E = "1"]) (simp_all add: pow2_def round_even_def)

lemma rounded_14: "rnd (2000000001 / 2) = Fin (2000000001 / 2)"
  by (subst rnd_eval [where E = "29"]) (simp_all add: pow2_def round_even_def)

lemma rounded_15: "rnd (1 / 2) = Fin (1 / 2)"
  by (subst rnd_eval [where E = "- 1"]) (simp_all add: pow2_def round_even_def)

lemma rounded_16: "rnd (1 / 4) = Fin (1 / 4)"
  by (subst rnd_eval [where E = "- 2"]) (simp_all add: pow2_def round_even_def)

lemma rounded_17: "rnd (2000000005 / 2) = Fin (2000000005 / 2)"
  by (subst rnd_eval [where E = "29"]) (simp_all add: pow2_def round_even_def)

lemma rounded_18: "rnd (4000000020000000025 / 4) = Fin (1000000005000000000)"
  by (subst rnd_eval [where E = "59"]) (simp_all add: pow2_def round_even_def)

lemma rounded_19: "rnd (2000000003 / 2) = Fin (2000000003 / 2)"
  by (subst rnd_eval [where E = "29"]) (simp_all add: pow2_def round_even_def)

lemma rounded_20: "rnd (4000000004000000001 / 4) = Fin (1000000001000000000)"
  by (subst rnd_eval [where E = "59"]) (simp_all add: pow2_def round_even_def)

lemma rounded_21: "rnd (4000000020000000001 / 4) = Fin (1000000005000000000)"
  by (subst rnd_eval [where E = "59"]) (simp_all add: pow2_def round_even_def)

lemma rounded_22: "rnd (2000000002000000000) = Fin (2000000002000000000)"
  by (subst rnd_eval [where E = "60"]) (simp_all add: pow2_def round_even_def)

lemma rounded_23: "rnd (2000000010000000000) = Fin (2000000010000000000)"
  by (subst rnd_eval [where E = "60"]) (simp_all add: pow2_def round_even_def)

lemma rounded_24: "rnd (4000000012000000000) = Fin (4000000012000000000)"
  by (subst rnd_eval [where E = "61"]) (simp_all add: pow2_def round_even_def)

lemma rounded_25: "rnd (1000000003000000000) = Fin (1000000003000000000)"
  by (subst rnd_eval [where E = "59"]) (simp_all add: pow2_def round_even_def)

lemma rounded_26: "rnd (4000000012000000009 / 4) = Fin (1000000003000000000)"
  by (subst rnd_eval [where E = "59"]) (simp_all add: pow2_def round_even_def)

lemma rounded_27: "rnd (18014399046352900) = Fin (18014399046352900)"
  by (subst rnd_eval [where E = "54"]) (simp_all add: pow2_def round_even_def)

lemma rounded_28: "rnd (268435459 / 2) = Fin (268435459 / 2)"
  by (subst rnd_eval [where E = "27"]) (simp_all add: pow2_def round_even_def)

lemma rounded_29: "rnd (18014398777917441) = Fin (18014398777917440)"
  by (subst rnd_eval [where E = "54"]) (simp_all add: pow2_def round_even_def)

lemma rounded_30: "rnd (18014398777917440) = Fin (18014398777917440)"
  by (subst rnd_eval [where E = "54"]) (simp_all add: pow2_def round_even_def)

lemma rounded_31: "rnd (36028797824270340) = Fin (36028797824270336)"
  by (subst rnd_eval [where E = "55"]) (simp_all add: pow2_def round_even_def)

lemma rounded_32: "rnd (18014398912135168) = Fin (18014398912135168)"
  by (subst rnd_eval [where E = "54"]) (simp_all add: pow2_def round_even_def)

lemma rounded_33: "rnd (72057595648540681 / 4) = Fin (18014398912135172)"
  by (subst rnd_eval [where E = "54"]) (simp_all add: pow2_def round_even_def)

lemmas rounded = rounded_1 rounded_2 rounded_3 rounded_4 rounded_5 rounded_6 rounded_7
  rounded_8 rounded_9 rounded_10 rounded_11 rounded_12 rounded_13 rounded_14 rounded_15
  rounded_16 rounded_17 rounded_18 rounded_19 rounded_20 rounded_21 rounded_22
  rounded_23 rounded_24 rounded_25 rounded_26 rounded_27 rounded_28 rounded_29
  rounded_30 rounded_31 rounded_32 rounded_33

text \<open>What evaluates the binary64 model on given numbers.\<close>

lemmas f64_eval = f64_update_def f64_new_means_expr_def f64_vars_expr_def broadcast_def
  and_then_def arr_scalar_def scalar_arr_def f64_np_square_def np_maximum_def
  f64_np_mean_def f64_np_var_def f64_mean1_def f64_var1_def f64_column_def f64_sum_def
  f64_of_pyint_def f64_shape0_def f64_add_def f64_sub_def f64_mul_def f64_div_def
  f64_sqrt_def f64_get_def f64_np_sqrt_def inf_of_def
  rnd_0 rnd_1 rnd_numeral rnd_neg_numeral rnd_pow2 rnd_neg_pow2 rnd_pow2_overflow
  pow2_double pow2_times pow2_half pow2_quarter pow2_twice rnd_tenth

section \<open>Columns of real numbers\<close>

lemma foldl_fadd_Fin: "foldl fadd (Fin a) (map Fin xs) = Fin (a + sum_list xs)"
  by (induction xs arbitrary: a) (simp_all add: add.assoc)

lemma fsum_Fin: "fsum (map Fin xs) = Fin (sum_list xs)"
  by (simp add: fsum_def foldl_fadd_Fin)

lemma mean1_Fin: "col \<noteq> [] \<Longrightarrow> mean1 col = Fin (population_mean col)"
  by (simp add: mean1_def fsum_Fin of_pyint_def population_mean_def)

lemma mean1_Nil: "mean1 [] = NaN"
  by (simp add: mean1_def fsum_def of_pyint_def)

lemma var1_Fin:
  assumes ne: "col \<noteq> []"
  shows "var1 col = Fin (population_variance col)"
proof -
  have sq: "map (\<lambda>d. fmul d d) (map (\<lambda>a. fsub (Fin a) (Fin (population_mean col))) col)
            = map Fin (map (\<lambda>a. (a - population_mean col)\<^sup>2) col)"
    by (simp add: power2_eq_square)
  show ?thesis
    using ne unfolding var1_def Let_def mean1_Fin [OF ne] sq fsum_Fin
    by (simp add: of_pyint_def population_variance_def)
qed

lemma var1_Nil: "var1 [] = NaN"
  by (simp add: var1_def mean1_Nil fsum_def of_pyint_def)

lemma population_variance_nonneg: "0 \<le> population_variance col"
  unfolding population_variance_def by (intro divide_nonneg_nonneg sum_list_nonneg) auto

lemma sum_sq_dev:
  "sum_list (map (\<lambda>a. (a - c)\<^sup>2) xs)
     = sum_list (map (\<lambda>a. a\<^sup>2) xs) - 2 * c * sum_list xs + real (length xs) * c\<^sup>2"
  by (induction xs) (simp_all add: power2_eq_square algebra_simps)

text \<open>Variance plus squared mean, times the count, is the sum of the squares.\<close>

lemma second_moment:
  assumes "col \<noteq> []"
  shows "real (length col) * (population_variance col + (population_mean col)\<^sup>2)
         = sum_list (map (\<lambda>a. a\<^sup>2) col)"
proof -
  have N: "real (length col) \<noteq> 0" using assms by simp
  have "real (length col) * population_variance col
        = sum_list (map (\<lambda>a. (a - population_mean col)\<^sup>2) col)"
    using N by (simp add: population_variance_def)
  also have "\<dots> = sum_list (map (\<lambda>a. a\<^sup>2) col) - 2 * population_mean col * sum_list col
                    + real (length col) * (population_mean col)\<^sup>2"
    by (rule sum_sq_dev)
  also have "sum_list col = real (length col) * population_mean col"
    using N by (simp add: population_mean_def)
  finally show ?thesis by (simp add: algebra_simps power2_eq_square)
qed

lemma population_mean_append:
  assumes "xs \<noteq> []" "ys \<noteq> []"
  shows "population_mean (xs @ ys)
         = (population_mean xs * real (length xs) + population_mean ys * real (length ys))
           / (real (length xs) + real (length ys))"
  using assms by (simp add: population_mean_def)

lemma population_variance_append:
  assumes "xs \<noteq> []" "ys \<noteq> []"
  shows "population_variance (xs @ ys)
         = (real (length xs) * (population_variance xs + (population_mean xs)\<^sup>2)
            + real (length ys) * (population_variance ys + (population_mean ys)\<^sup>2))
           / (real (length xs) + real (length ys)) - (population_mean (xs @ ys))\<^sup>2"
proof -
  have ne: "xs @ ys \<noteq> []" using assms by simp
  have N: "real (length xs) + real (length ys) \<noteq> 0"
    using assms by (simp add: add_nonneg_eq_0_iff)
  have "real (length (xs @ ys))
          * (population_variance (xs @ ys) + (population_mean (xs @ ys))\<^sup>2)
        = sum_list (map (\<lambda>a. a\<^sup>2) (xs @ ys))"
    by (rule second_moment [OF ne])
  also have "\<dots> = real (length xs) * (population_variance xs + (population_mean xs)\<^sup>2)
                  + real (length ys) * (population_variance ys + (population_mean ys)\<^sup>2)"
    by (simp add: second_moment [OF assms(1)] second_moment [OF assms(2)])
  finally have "(real (length xs) + real (length ys))
          * (population_variance (xs @ ys) + (population_mean (xs @ ys))\<^sup>2)
        = real (length xs) * (population_variance xs + (population_mean xs)\<^sup>2)
          + real (length ys) * (population_variance ys + (population_mean ys)\<^sup>2)"
    by simp
  then show ?thesis using N by (simp add: field_simps)
qed

text \<open>The two merge formulas of \<open>update\<close>, on one column.\<close>

lemma pooled_mean1:
  assumes "xs \<noteq> []" "ys \<noteq> []"
  shows "fdiv (fadd (fmul (mean1 xs) (of_pyint (int (length xs))))
                    (fmul (mean1 ys) (of_pyint (int (length ys)))))
              (of_pyint (int (length xs) + int (length ys)))
         = mean1 (xs @ ys)"
proof -
  have ne: "xs @ ys \<noteq> []" using assms by simp
  have N: "real (length xs) + real (length ys) \<noteq> 0"
    using assms by (simp add: add_nonneg_eq_0_iff)
  show ?thesis
    unfolding mean1_Fin [OF assms(1)] mean1_Fin [OF assms(2)] mean1_Fin [OF ne]
    using N by (simp add: of_pyint_def population_mean_append [OF assms])
qed

lemma pooled_var1:
  assumes "xs \<noteq> []" "ys \<noteq> []"
  shows "fmaximum (Fin 0)
           (fsub (fdiv (fadd (fmul (of_pyint (int (length xs)))
                                   (fadd (var1 xs) (fmul (mean1 xs) (mean1 xs))))
                             (fmul (of_pyint (int (length ys)))
                                   (fadd (var1 ys) (fmul (mean1 ys) (mean1 ys)))))
                       (of_pyint (int (length xs) + int (length ys))))
                 (fmul (mean1 (xs @ ys)) (mean1 (xs @ ys))))
         = var1 (xs @ ys)"
proof -
  have ne: "xs @ ys \<noteq> []" using assms by simp
  have N: "real (length xs) + real (length ys) \<noteq> 0"
    using assms by (simp add: add_nonneg_eq_0_iff)
  show ?thesis
    unfolding mean1_Fin [OF assms(1)] mean1_Fin [OF assms(2)] mean1_Fin [OF ne]
      var1_Fin [OF assms(1)] var1_Fin [OF assms(2)] var1_Fin [OF ne]
    using N population_variance_nonneg [of "xs @ ys"]
    by (simp add: of_pyint_def population_variance_append [OF assms] power2_eq_square)
qed

section \<open>Arrays\<close>

lemma map2_same: "map2 f (map g xs) (map h xs) = map (\<lambda>j. f (g j) (h j)) xs"
  by (induction xs) simp_all

lemma broadcast_same:
  "broadcast f (map g xs) (map h xs) = Inr (map (\<lambda>j. f (g j) (h j)) xs)"
  by (simp add: broadcast_def map2_same)

lemma ncols_append_rows: "ncols (append_rows a b) = ncols a"
  by (simp add: append_rows_def)

lemma rows_append_rows: "rows (append_rows a b) = rows a @ rows b"
  by (simp add: append_rows_def)

lemma shape0_append_rows: "shape0 (append_rows a b) = shape0 a + shape0 b"
  by (simp add: append_rows_def shape0_def)

lemma column_append: "column (append_rows a b) j = column a j @ column b j"
  by (simp add: column_def append_rows_def)

lemma column_Nil_iff: "column x j = [] \<longleftrightarrow> rows x = []"
  by (simp add: column_def)

lemma length_column: "length (column x j) = length (rows x)"
  by (simp add: column_def)

lemma np_mean_Fin:
  "rows x \<noteq> [] \<Longrightarrow> np_mean x = map (\<lambda>j. Fin (population_mean (column x j))) [0..<ncols x]"
  by (simp add: np_mean_def mean1_Fin column_Nil_iff)

lemma np_var_Fin:
  "rows x \<noteq> [] \<Longrightarrow> np_var x = map (\<lambda>j. Fin (population_variance (column x j))) [0..<ncols x]"
  by (simp add: np_var_def var1_Fin column_Nil_iff)

section \<open>One call of update\<close>

lemma update_first_pass:
  "first_pass s \<Longrightarrow>
   update s x = (Inr (), s\<lparr>means := np_mean x, vars := np_var x, m := shape0 x,
                            first_pass := False\<rparr>)"
  by (simp add: update_def)

text \<open>
  An object that holds the statistics of the rows \<open>a\<close> holds, after a non-empty batch
  \<open>x\<close> of the same width, the statistics of the rows of \<open>a\<close> followed by those of \<open>x\<close>.
\<close>

lemma update_tracks:
  assumes t: "tracks s a" and a: "rows a \<noteq> []" and x: "rows x \<noteq> []"
    and d: "ncols x = ncols a"
  shows "update s x = (Inr (), s\<lparr>vars := np_var (append_rows a x),
                                   means := np_mean (append_rows a x),
                                   m := shape0 (append_rows a x)\<rparr>)"
proof -
  let ?d = "ncols a"
  let ?pooled = "\<lambda>j. fsub (fdiv (fadd (fmul (of_pyint (int (length (column a j))))
                       (fadd (var1 (column a j))
                             (fmul (mean1 (column a j)) (mean1 (column a j)))))
                     (fmul (of_pyint (int (length (column x j))))
                       (fadd (var1 (column x j))
                             (fmul (mean1 (column x j)) (mean1 (column x j))))))
                   (of_pyint (int (length (column a j)) + int (length (column x j)))))
              (fmul (mean1 (column a j @ column x j)) (mean1 (column a j @ column x j)))"
  have fp: "\<not> first_pass s" and ms: "m s = int (length (rows a))"
    and mean: "means s = map (\<lambda>j. mean1 (column a j)) [0..<?d]"
    and var: "vars s = map (\<lambda>j. var1 (column a j)) [0..<?d]"
    using t by (simp_all add: tracks_def shape0_def np_mean_def np_var_def)
  have ca: "column a j \<noteq> []" and cx: "column x j \<noteq> []" for j
    using a x by (simp_all add: column_Nil_iff)
  have nm: "new_means_expr s (np_mean x) (shape0 x) = Inr (np_mean (append_rows a x))"
    unfolding new_means_expr_def np_mean_def mean ms d shape0_def
    using pooled_mean1 [OF ca cx]
    by (simp add: arr_scalar_def broadcast_same and_then_def column_append
        length_column ncols_append_rows)
  have nv: "vars_expr s (np_var x) (np_square (np_mean x)) (np_mean (append_rows a x))
              (shape0 x) = Inr (map ?pooled [0..<?d])"
    unfolding vars_expr_def np_mean_def np_var_def mean var ms d shape0_def
    by (simp add: arr_scalar_def scalar_arr_def np_square_def broadcast_same and_then_def
        column_append length_column ncols_append_rows)
  have cl: "np_maximum (Fin 0) (map ?pooled [0..<?d]) = np_var (append_rows a x)"
    unfolding np_maximum_def np_var_def
    using pooled_var1 [OF ca cx]
    by (simp add: column_append ncols_append_rows length_column)
  show ?thesis
    unfolding update_def Let_def using fp
    by (simp add: nm nv cl ms shape0_append_rows) (simp add: shape0_def)
qed

lemma tracks_after_update:
  assumes "tracks s a" "rows a \<noteq> []" "rows x \<noteq> []" "ncols x = ncols a"
  shows "\<exists>s'. update s x = (Inr (), s') \<and> tracks s' (append_rows a x) \<and> n s' = n s"
  using assms(1) unfolding update_tracks [OF assms] by (simp add: tracks_def)

lemma tracks_after_first:
  assumes "first_pass s"
  shows "\<exists>s'. update s x = (Inr (), s') \<and> tracks s' x \<and> n s' = n s"
  unfolding update_first_pass [OF assms] by (simp add: tracks_def)

lemma feed_tracks:
  assumes "tracks s a" "rows a \<noteq> []" "\<forall>b\<in>set bs. rows b \<noteq> [] \<and> ncols b = ncols a"
  shows "\<exists>s'. feed s bs = (Inr (), s') \<and> tracks s' (foldl append_rows a bs)"
  using assms
proof (induction bs arbitrary: s a)
  case Nil
  then show ?case by simp
next
  case (Cons b bs)
  have "rows b \<noteq> []" "ncols b = ncols a" using Cons.prems(3) by simp_all
  from tracks_after_update [OF Cons.prems(1,2) this] obtain s1 where
    u: "update s b = (Inr (), s1)" and t1: "tracks s1 (append_rows a b)"
    by blast
  have r: "rows (append_rows a b) \<noteq> []"
    using Cons.prems(2) by (simp add: rows_append_rows)
  have w: "\<forall>c\<in>set bs. rows c \<noteq> [] \<and> ncols c = ncols (append_rows a b)"
    using Cons.prems(3) by (simp add: ncols_append_rows)
  from Cons.IH [OF t1 r w] obtain s' where
    "feed s1 bs = (Inr (), s')" "tracks s' (foldl append_rows (append_rows a b) bs)"
    by blast
  then show ?case using u by simp
qed

lemma rows_foldl_append_rows: "rows a \<noteq> [] \<Longrightarrow> rows (foldl append_rows a bs) \<noteq> []"
  by (induction bs arbitrary: a) (simp_all add: rows_append_rows)

lemma ncols_foldl_append_rows: "ncols (foldl append_rows a bs) = ncols a"
  by (induction bs arbitrary: a) (simp_all add: ncols_append_rows)

section \<open>Merge correctness\<close>

lemma concatenate_Cons:
  "\<forall>c\<in>set bs. ncols c = ncols b \<Longrightarrow> concatenate (b # bs) = Inr (foldl append_rows b bs)"
  by (simp add: concatenate_def list_all_iff)

lemma feed_valid:
  assumes "\<forall>c\<in>set (b # bs). valid_batch d c"
  shows "\<exists>s. feed (Scaler_init d) (b # bs) = (Inr (), s)
           \<and> tracks s (foldl append_rows b bs)"
proof -
  have b: "rows b \<noteq> []" and w: "\<forall>c\<in>set bs. rows c \<noteq> [] \<and> ncols c = ncols b"
    using assms by (simp_all add: valid_batch_def has_width_def)
  have "first_pass (Scaler_init d)" by (simp add: Scaler_init_def)
  from tracks_after_first [OF this, of b] obtain s1 where
    u: "update (Scaler_init d) b = (Inr (), s1)" and t: "tracks s1 b"
    by blast
  from feed_tracks [OF t b w] obtain s where
    "feed s1 bs = (Inr (), s)" "tracks s (foldl append_rows b bs)"
    by blast
  then show ?thesis using u by simp
qed

text \<open>
  C1, as the code has it. Merge correctness, in exact real arithmetic. For every
  sequence of one or more non-empty batches of the Scaler's width, fed to \<open>update\<close> in
  order from a new Scaler, every call returns, and the means and variances held
  afterwards are, column by column, the population mean and the population variance of
  the concatenation of all the batches. With two columns, the batch \<open>[[0,0],[2,0]]\<close>
  gives the mean \<open>[1,0]\<close> and the variance \<open>[1,0]\<close>, and the batch \<open>[[4,0],[6,0]]\<close> after
  it gives the mean \<open>[3,0]\<close> and the variance \<open>[5,0]\<close>, in exact arithmetic and in
  binary64 alike.
\<close>

theorem merge_correctness:
  "(bs \<noteq> [] \<and> (\<forall>b\<in>set bs. valid_batch d b) \<longrightarrow>
      (\<exists>s a. feed (Scaler_init d) bs = (Inr (), s) \<and> concatenate bs = Inr a
         \<and> means s = map (\<lambda>j. Fin (population_mean (column a j))) [0..<d]
         \<and> vars s = map (\<lambda>j. Fin (population_variance (column a j))) [0..<d]))
   \<and> update (Scaler_init 2) \<lparr>ncols = 2, rows = [[0, 0], [2, 0]]\<rparr>
       = (Inr (), \<lparr>vars = [Fin 1, Fin 0], means = [Fin 1, Fin 0], m = 2, n = 0,
                    first_pass = False\<rparr>)
   \<and> update \<lparr>vars = [Fin 1, Fin 0], means = [Fin 1, Fin 0], m = 2, n = 0,
               first_pass = False\<rparr> \<lparr>ncols = 2, rows = [[4, 0], [6, 0]]\<rparr>
       = (Inr (), \<lparr>vars = [Fin 5, Fin 0], means = [Fin 3, Fin 0], m = 4, n = 0,
                    first_pass = False\<rparr>)
   \<and> f64_update (Scaler_init 2)
         \<lparr>f64_ncols = 2, f64_rows = [[Fin 0, Fin 0], [Fin 2, Fin 0]]\<rparr>
       = (Inr (), \<lparr>vars = [Fin 1, Fin 0], means = [Fin 1, Fin 0], m = 2, n = 0,
                    first_pass = False\<rparr>)
   \<and> f64_update \<lparr>vars = [Fin 1, Fin 0], means = [Fin 1, Fin 0], m = 2, n = 0,
                   first_pass = False\<rparr>
         \<lparr>f64_ncols = 2, f64_rows = [[Fin 4, Fin 0], [Fin 6, Fin 0]]\<rparr>
       = (Inr (), \<lparr>vars = [Fin 5, Fin 0], means = [Fin 3, Fin 0], m = 4, n = 0,
                    first_pass = False\<rparr>)"
proof (intro conjI impI)
  assume h: "bs \<noteq> [] \<and> (\<forall>b\<in>set bs. valid_batch d b)"
  then obtain b rest where bs: "bs = b # rest" by (cases bs) auto
  from h bs have v: "\<forall>c\<in>set (b # rest). valid_batch d c" by simp
  from feed_valid [OF v] obtain s where
    f: "feed (Scaler_init d) (b # rest) = (Inr (), s)"
    and t: "tracks s (foldl append_rows b rest)"
    by blast
  let ?a = "foldl append_rows b rest"
  have w: "\<forall>c\<in>set rest. ncols c = ncols b" and nb: "ncols b = d" and rb: "rows b \<noteq> []"
    using v by (simp_all add: valid_batch_def has_width_def)
  have c: "concatenate bs = Inr ?a"
    unfolding bs by (rule concatenate_Cons [OF w])
  have ra: "rows ?a \<noteq> []" by (rule rows_foldl_append_rows [OF rb])
  have na: "ncols ?a = d" by (simp add: ncols_foldl_append_rows nb)
  have "means s = map (\<lambda>j. Fin (population_mean (column ?a j))) [0..<d]"
    using t np_mean_Fin [OF ra] by (simp add: tracks_def na)
  moreover have "vars s = map (\<lambda>j. Fin (population_variance (column ?a j))) [0..<d]"
    using t np_var_Fin [OF ra] by (simp add: tracks_def na)
  ultimately show "\<exists>s a. feed (Scaler_init d) bs = (Inr (), s) \<and> concatenate bs = Inr a
         \<and> means s = map (\<lambda>j. Fin (population_mean (column a j))) [0..<d]
         \<and> vars s = map (\<lambda>j. Fin (population_variance (column a j))) [0..<d]"
    using f c unfolding bs by blast
next
  show "update (Scaler_init 2) \<lparr>ncols = 2, rows = [[0, 0], [2, 0]]\<rparr>
       = (Inr (), \<lparr>vars = [Fin 1, Fin 0], means = [Fin 1, Fin 0], m = 2, n = 0,
                    first_pass = False\<rparr>)"
    by (simp add: update_def Scaler_init_def np_mean_def np_var_def mean1_def var1_def
        column_def fsum_def of_pyint_def shape0_def upt_rec numeral_2_eq_2)
next
  show "update \<lparr>vars = [Fin 1, Fin 0], means = [Fin 1, Fin 0], m = 2, n = 0,
               first_pass = False\<rparr> \<lparr>ncols = 2, rows = [[4, 0], [6, 0]]\<rparr>
       = (Inr (), \<lparr>vars = [Fin 5, Fin 0], means = [Fin 3, Fin 0], m = 4, n = 0,
                    first_pass = False\<rparr>)"
    by (simp add: update_def new_means_expr_def vars_expr_def broadcast_def and_then_def
        arr_scalar_def scalar_arr_def np_square_def np_maximum_def
        np_mean_def np_var_def mean1_def var1_def
        column_def fsum_def of_pyint_def shape0_def upt_rec numeral_2_eq_2)
next
  show "f64_update (Scaler_init 2)
         \<lparr>f64_ncols = 2, f64_rows = [[Fin 0, Fin 0], [Fin 2, Fin 0]]\<rparr>
       = (Inr (), \<lparr>vars = [Fin 1, Fin 0], means = [Fin 1, Fin 0], m = 2, n = 0,
                    first_pass = False\<rparr>)"
    by (simp add: f64_eval Scaler_init_def rnd_minus upt_rec numeral_2_eq_2)
next
  show "f64_update \<lparr>vars = [Fin 1, Fin 0], means = [Fin 1, Fin 0], m = 2, n = 0,
                   first_pass = False\<rparr>
         \<lparr>f64_ncols = 2, f64_rows = [[Fin 4, Fin 0], [Fin 6, Fin 0]]\<rparr>
       = (Inr (), \<lparr>vars = [Fin 5, Fin 0], means = [Fin 3, Fin 0], m = 4, n = 0,
                    first_pass = False\<rparr>)"
    by (simp add: f64_eval rnd_minus upt_rec numeral_2_eq_2)
qed

theorem merge_correctness_witness:
  "[\<lparr>ncols = 2, rows = [[0, 0], [2, 0]]\<rparr>, \<lparr>ncols = 2, rows = [[4, 0], [6, 0]]\<rparr>] \<noteq> []
   \<and> valid_batch 2 \<lparr>ncols = 2, rows = [[0, 0], [2, 0]]\<rparr>
   \<and> valid_batch 2 \<lparr>ncols = 2, rows = [[4, 0], [6, 0]]\<rparr>
   \<and> (\<exists>s a. feed (Scaler_init 2)
               [\<lparr>ncols = 2, rows = [[0, 0], [2, 0]]\<rparr>, \<lparr>ncols = 2, rows = [[4, 0], [6, 0]]\<rparr>]
             = (Inr (), s)
         \<and> concatenate
               [\<lparr>ncols = 2, rows = [[0, 0], [2, 0]]\<rparr>, \<lparr>ncols = 2, rows = [[4, 0], [6, 0]]\<rparr>]
             = Inr a
         \<and> means s = map (\<lambda>j. Fin (population_mean (column a j))) [0..<2]
         \<and> vars s = map (\<lambda>j. Fin (population_variance (column a j))) [0..<2])"
proof -
  let ?bs = "[\<lparr>ncols = 2, rows = [[0, 0], [2, 0]]\<rparr>, \<lparr>ncols = 2, rows = [[4, 0], [6, 0::real]]\<rparr>]"
  have v: "\<forall>b\<in>set ?bs. valid_batch 2 b"
    by (simp add: valid_batch_def has_width_def wf_ndarray_def)
  have ne: "?bs \<noteq> []" by simp
  from merge_correctness [of ?bs 2] have
    "?bs \<noteq> [] \<and> (\<forall>b\<in>set ?bs. valid_batch 2 b) \<longrightarrow>
      (\<exists>s a. feed (Scaler_init 2) ?bs = (Inr (), s) \<and> concatenate ?bs = Inr a
         \<and> means s = map (\<lambda>j. Fin (population_mean (column a j))) [0..<2]
         \<and> vars s = map (\<lambda>j. Fin (population_variance (column a j))) [0..<2])"
    by (rule conjunct1)
  with ne v show ?thesis by simp
qed

text \<open>
  C1, as stated, fails in binary64: no tolerance holds. The batch
  \<open>[[1000000000],[1000000001]]\<close> and then the batch \<open>[[1000000002],[1000000003]]\<close>, all
  entries doubles, leave the variance \<open>0.0\<close> in the object, while the population
  variance of the four values is \<open>1.25\<close>: the squares of the means are rounded to
  multiples of 128 and their difference is lost.
\<close>

theorem merge_loses_the_variance:
  "rnd 1000000000 = Fin 1000000000 \<and> rnd 1000000001 = Fin 1000000001
   \<and> rnd 1000000002 = Fin 1000000002 \<and> rnd 1000000003 = Fin 1000000003
   \<and> f64_update (Scaler_init 1)
        \<lparr>f64_ncols = 1, f64_rows = [[Fin 1000000000], [Fin 1000000001]]\<rparr>
      = (Inr (), \<lparr>vars = [Fin (1 / 4)], means = [Fin (2000000001 / 2)], m = 2, n = 0,
                   first_pass = False\<rparr>)
   \<and> f64_update \<lparr>vars = [Fin (1 / 4)], means = [Fin (2000000001 / 2)], m = 2, n = 0,
                   first_pass = False\<rparr>
        \<lparr>f64_ncols = 1, f64_rows = [[Fin 1000000002], [Fin 1000000003]]\<rparr>
      = (Inr (), \<lparr>vars = [Fin 0], means = [Fin (2000000003 / 2)], m = 4, n = 0,
                   first_pass = False\<rparr>)
   \<and> population_mean [1000000000, 1000000001, 1000000002, 1000000003] = 2000000003 / 2
   \<and> population_variance [1000000000, 1000000001, 1000000002, 1000000003] = 5 / 4"
  by (simp add: f64_eval Scaler_init_def rnd_minus rounded population_mean_def
      population_variance_def power2_eq_square)

section \<open>What update accepts and what it refuses\<close>

lemma update_cases:
  assumes "update s x = (r, s')"
  shows "(first_pass s \<and> r = Inr ()
            \<and> s' = s\<lparr>means := np_mean x, vars := np_var x, m := shape0 x,
                      first_pass := False\<rparr>)
         \<or> (\<not> first_pass s \<and> (\<exists>e. r = Inl e) \<and> s' = s)
         \<or> (\<not> first_pass s \<and> r = Inr ()
            \<and> (\<exists>v w. s' = s\<lparr>vars := v, means := w, m := m s + shape0 x\<rparr>))"
  using assms by (auto simp: update_def Let_def split: if_splits sum.splits)

lemma length_np_mean: "length (np_mean x) = ncols x"
  by (simp add: np_mean_def)

lemma length_np_var: "length (np_var x) = ncols x"
  by (simp add: np_var_def)

lemma broadcast_same_length:
  "length a = length b \<Longrightarrow> \<exists>c. broadcast f a b = Inr c \<and> length c = length a"
  by (simp add: broadcast_def)

lemma broadcast_mismatch:
  "length a \<noteq> length b \<Longrightarrow> length a \<noteq> 1 \<Longrightarrow> length b \<noteq> 1 \<Longrightarrow>
   broadcast f a b = Inl ValueError"
  by (simp add: broadcast_def)

text \<open>A batch of the width of the held arrays is absorbed, and the widths stay.\<close>

lemma update_same_width:
  assumes "length (means s) = ncols x" "length (vars s) = ncols x"
  shows "\<exists>s'. update s x = (Inr (), s')
           \<and> length (means s') = ncols x \<and> length (vars s') = ncols x"
proof (cases "first_pass s")
  case True
  then show ?thesis
    by (simp add: update_first_pass length_np_mean length_np_var)
next
  case False
  have nm: "\<exists>c. new_means_expr s (np_mean x) (shape0 x) = Inr c \<and> length c = ncols x"
    using assms by (simp add: new_means_expr_def and_then_def broadcast_def
        arr_scalar_def length_np_mean)
  then obtain c where c: "new_means_expr s (np_mean x) (shape0 x) = Inr c"
    and lc: "length c = ncols x" by blast
  have "\<exists>v. vars_expr s (np_var x) (np_square (np_mean x)) c (shape0 x) = Inr v
          \<and> length v = ncols x"
    using assms lc by (simp add: vars_expr_def and_then_def broadcast_def
        arr_scalar_def scalar_arr_def np_square_def length_np_mean length_np_var)
  then obtain v where v: "vars_expr s (np_var x) (np_square (np_mean x)) c (shape0 x) = Inr v"
    and lv: "length v = ncols x" by blast
  show ?thesis
    using False by (simp add: update_def Let_def c v lc lv np_maximum_def)
qed

text \<open>A batch of another width, neither width being 1, makes the second branch raise.\<close>

lemma update_other_width:
  assumes "\<not> first_pass s" "length (means s) \<noteq> ncols x" "length (means s) \<noteq> 1"
    "ncols x \<noteq> 1"
  shows "update s x = (Inl ValueError, s)"
proof -
  have "new_means_expr s (np_mean x) (shape0 x) = Inl ValueError"
    using assms by (simp add: new_means_expr_def and_then_def broadcast_def
        arr_scalar_def length_np_mean)
  then show ?thesis using assms(1) by (simp add: update_def Let_def)
qed

lemma np_mean_empty: "rows x = [] \<Longrightarrow> np_mean x = replicate (ncols x) NaN"
  by (simp add: np_mean_def column_def mean1_Nil map_replicate_const)

lemma np_var_empty: "rows x = [] \<Longrightarrow> np_var x = replicate (ncols x) NaN"
  by (simp add: np_var_def column_def var1_Nil map_replicate_const)

text \<open>
  C2, as the code has it. \<open>update\<close> checks nothing and has no error of its own. On the
  first call every batch is absorbed, whatever its row length and also when it has no
  rows: the held statistics are replaced by those of the batch, which are \<open>nan\<close> in
  every column for a batch of no rows. On a later call a batch whose row length differs
  from the length of the held mean, neither of the two being 1, makes NumPy's
  broadcasting raise \<open>ValueError\<close>; a batch whose row length is that of the held mean
  and variance never fails, with or without rows. Whenever \<open>update\<close> raises, it is not
  the first call and the object is unchanged.
\<close>

theorem update_input_handling:
  "(first_pass s \<longrightarrow>
      update s x = (Inr (), s\<lparr>means := np_mean x, vars := np_var x, m := shape0 x,
                               first_pass := False\<rparr>))
   \<and> (rows x = [] \<longrightarrow>
        np_mean x = replicate (ncols x) NaN \<and> np_var x = replicate (ncols x) NaN)
   \<and> (\<not> first_pass s \<and> length (means s) \<noteq> ncols x \<and> length (means s) \<noteq> 1
        \<and> ncols x \<noteq> 1 \<longrightarrow> update s x = (Inl ValueError, s))
   \<and> (length (means s) = ncols x \<and> length (vars s) = ncols x \<longrightarrow>
        fst (update s x) = Inr ())
   \<and> (\<forall>e s'. update s x = (Inl e, s') \<longrightarrow> s' = s \<and> \<not> first_pass s)"
proof (intro conjI impI allI)
  assume "first_pass s"
  then show "update s x = (Inr (), s\<lparr>means := np_mean x, vars := np_var x,
                                      m := shape0 x, first_pass := False\<rparr>)"
    by (rule update_first_pass)
next
  assume "rows x = []"
  then show "np_mean x = replicate (ncols x) NaN" by (rule np_mean_empty)
next
  assume "rows x = []"
  then show "np_var x = replicate (ncols x) NaN" by (rule np_var_empty)
next
  assume "\<not> first_pass s \<and> length (means s) \<noteq> ncols x \<and> length (means s) \<noteq> 1
            \<and> ncols x \<noteq> 1"
  then show "update s x = (Inl ValueError, s)"
    by (simp add: update_other_width)
next
  assume "length (means s) = ncols x \<and> length (vars s) = ncols x"
  then obtain s' where "update s x = (Inr (), s')"
    using update_same_width [of s x] by blast
  then show "fst (update s x) = Inr ()" by simp
next
  fix e s' assume u: "update s x = (Inl e, s')"
  from update_cases [OF u] show "s' = s" by auto
  from update_cases [OF u] show "\<not> first_pass s" by auto
qed

theorem update_input_handling_witness:
  "first_pass (Scaler_init 2)
   \<and> update (Scaler_init 2) \<lparr>ncols = 3, rows = [[1, 2, 3]]\<rparr>
       = (Inr (), (Scaler_init 2)\<lparr>means := np_mean \<lparr>ncols = 3, rows = [[1, 2, 3]]\<rparr>,
                                   vars := np_var \<lparr>ncols = 3, rows = [[1, 2, 3]]\<rparr>,
                                   m := shape0 \<lparr>ncols = 3, rows = [[1, 2, 3]]\<rparr>,
                                   first_pass := False\<rparr>)
   \<and> rows \<lparr>ncols = 2, rows = []\<rparr> = []
   \<and> np_mean \<lparr>ncols = 2, rows = []\<rparr> = replicate 2 NaN
   \<and> np_var \<lparr>ncols = 2, rows = []\<rparr> = replicate 2 NaN
   \<and> update \<lparr>vars = [Fin 1, Fin 0], means = [Fin 1, Fin 0], m = 2, n = 0,
               first_pass = False\<rparr> \<lparr>ncols = 3, rows = [[1, 2, 3]]\<rparr>
       = (Inl ValueError, \<lparr>vars = [Fin 1, Fin 0], means = [Fin 1, Fin 0], m = 2, n = 0,
                            first_pass = False\<rparr>)
   \<and> fst (update \<lparr>vars = [Fin 1, Fin 0], means = [Fin 1, Fin 0], m = 2, n = 0,
               first_pass = False\<rparr> \<lparr>ncols = 2, rows = []\<rparr>) = Inr ()"
  using update_input_handling [of "Scaler_init 2" "\<lparr>ncols = 3, rows = [[1, 2, 3]]\<rparr>"]
    update_input_handling [of "\<lparr>vars = [Fin 1, Fin 0], means = [Fin 1, Fin 0], m = 2, n = 0,
               first_pass = False\<rparr>" "\<lparr>ncols = 3, rows = [[1, 2, 3]]\<rparr>"]
    update_input_handling [of "\<lparr>vars = [Fin 1, Fin 0], means = [Fin 1, Fin 0], m = 2, n = 0,
               first_pass = False\<rparr>" "\<lparr>ncols = 2, rows = []\<rparr>"]
  by (simp add: Scaler_init_def)

text \<open>
  C2, as stated, fails. A new Scaler of two columns absorbs a batch of row length three
  and a batch of no rows: \<open>update\<close> returns, and the object is changed.
\<close>

theorem update_rejects_nothing:
  "update (Scaler_init 2) \<lparr>ncols = 3, rows = [[1, 2, 3]]\<rparr>
     = (Inr (), \<lparr>vars = [Fin 0, Fin 0, Fin 0], means = [Fin 1, Fin 2, Fin 3], m = 1,
                  n = 0, first_pass = False\<rparr>)
   \<and> update (Scaler_init 2) \<lparr>ncols = 2, rows = []\<rparr>
     = (Inr (), \<lparr>vars = [NaN, NaN], means = [NaN, NaN], m = 0, n = 0,
                  first_pass = False\<rparr>)
   \<and> snd (update (Scaler_init 2) \<lparr>ncols = 3, rows = [[1, 2, 3]]\<rparr>) \<noteq> Scaler_init 2
   \<and> snd (update (Scaler_init 2) \<lparr>ncols = 2, rows = []\<rparr>) \<noteq> Scaler_init 2"
  by (simp add: update_def Scaler_init_def np_mean_def np_var_def mean1_def var1_def
      column_def fsum_def of_pyint_def shape0_def upt_rec numeral_2_eq_2 numeral_3_eq_3)

section \<open>The lengths of the held arrays\<close>

lemma reachable_lengths:
  "reachable (has_width d) d s \<Longrightarrow> length (means s) = d \<and> length (vars s) = d"
proof (induction rule: reachable.induct)
  case construct
  show ?case by (simp add: Scaler_init_def)
next
  case (call s x r s')
  have w: "ncols x = d" using call.hyps(2) by (simp add: has_width_def)
  from update_same_width [of s x] call.IH w obtain s1 where
    "update s x = (Inr (), s1)" "length (means s1) = d \<and> length (vars s1) = d"
    by auto
  then show ?case using call.hyps(3) by simp
qed

text \<open>
  C3, as the code has it. In every object reached from \<open>Scaler(d)\<close> by calls of
  \<open>update\<close> whose batches all have row length \<open>d\<close> (with or without rows), the mean and
  the variance have length \<open>d\<close>.
\<close>

theorem length_invariant:
  assumes "reachable (has_width d) d s"
  shows "length (means s) = d \<and> length (vars s) = d"
  using assms by (rule reachable_lengths)

theorem length_invariant_witness:
  "reachable (has_width 2) 2
     \<lparr>vars = [Fin 1, Fin 0], means = [Fin 1, Fin 0], m = 2, n = 0, first_pass = False\<rparr>
   \<and> length (means \<lparr>vars = [Fin 1, Fin 0], means = [Fin 1, Fin 0], m = 2, n = 0,
                     first_pass = False\<rparr>) = 2
   \<and> length (vars \<lparr>vars = [Fin 1, Fin 0], means = [Fin 1, Fin 0], m = 2, n = 0,
                    first_pass = False\<rparr>) = 2"
proof -
  let ?x = "\<lparr>ncols = 2, rows = [[0, 0], [2, 0::real]]\<rparr>"
  let ?s = "\<lparr>vars = [Fin 1, Fin 0], means = [Fin 1, Fin 0], m = 2, n = 0,
             first_pass = False\<rparr>"
  have w: "has_width 2 ?x" by (simp add: has_width_def wf_ndarray_def)
  have u: "update (Scaler_init 2) ?x = (Inr (), ?s)"
    by (simp add: update_def Scaler_init_def np_mean_def np_var_def mean1_def var1_def
        column_def fsum_def of_pyint_def shape0_def upt_rec numeral_2_eq_2)
  have r: "reachable (has_width 2) 2 ?s"
    by (rule reachable.call [where P = "has_width 2", OF reachable.construct w u])
  from r length_invariant [OF r] show ?thesis by blast
qed

text \<open>
  C3, as stated, fails. \<open>Scaler(2)\<close> absorbs a batch of row length one, and the mean and
  the variance then have length one.
\<close>

theorem length_follows_first_batch:
  "fst (update (Scaler_init 2) \<lparr>ncols = 1, rows = [[5], [7]]\<rparr>) = Inr ()
   \<and> length (means (snd (update (Scaler_init 2) \<lparr>ncols = 1, rows = [[5], [7]]\<rparr>))) = 1
   \<and> length (vars (snd (update (Scaler_init 2) \<lparr>ncols = 1, rows = [[5], [7]]\<rparr>))) = 1
   \<and> length (means (Scaler_init 2)) = 2"
  by (simp add: update_def Scaler_init_def np_mean_def np_var_def)

section \<open>The count\<close>

lemma reachable_count:
  "reachable any_batch d s \<Longrightarrow> 0 \<le> m s \<and> (first_pass s \<longrightarrow> m s = 0)"
proof (induction rule: reachable.induct)
  case construct
  show ?case by (simp add: Scaler_init_def)
next
  case (call s x r s')
  from update_cases [OF call.hyps(3)] call.IH show ?case
    by (auto simp: shape0_def)
qed

lemma reachable_count_positive:
  "reachable nonempty d s \<Longrightarrow> (first_pass s \<longrightarrow> m s = 0) \<and> (\<not> first_pass s \<longrightarrow> 0 < m s)"
proof (induction rule: reachable.induct)
  case construct
  show ?case by (simp add: Scaler_init_def)
next
  case (call s x r s')
  have "0 < shape0 x" using call.hyps(2) by (simp add: nonempty_def shape0_def)
  with update_cases [OF call.hyps(3)] call.IH show ?case
    by auto
qed

text \<open>
  C9, as the code has it. The count \<open>m\<close> is 0 at construction. In every object reached
  from \<open>Scaler(d)\<close> by calls of \<open>update\<close> with any batches, the count is at least 0, it
  is 0 while no call has been absorbed (\<open>first_pass\<close>), and every call that returns adds
  the number of rows of its batch to it. When all the batches have at least one row,
  the count is 0 exactly while \<open>first_pass\<close> holds.
\<close>

theorem count_accounting:
  "m (Scaler_init d) = 0
   \<and> (reachable any_batch d s \<longrightarrow>
        0 \<le> m s \<and> (first_pass s \<longrightarrow> m s = 0)
        \<and> (\<forall>x s'. update s x = (Inr (), s') \<longrightarrow> m s' = m s + shape0 x))
   \<and> (reachable nonempty d s \<longrightarrow> (m s = 0 \<longleftrightarrow> first_pass s))"
proof (intro conjI impI allI)
  show "m (Scaler_init d) = 0" by (simp add: Scaler_init_def)
next
  assume "reachable any_batch d s"
  then show "0 \<le> m s" by (simp add: reachable_count)
next
  assume "reachable any_batch d s" "first_pass s"
  then show "m s = 0" by (simp add: reachable_count)
next
  fix x s'
  assume r: "reachable any_batch d s" and u: "update s x = (Inr (), s')"
  from update_cases [OF u] reachable_count [OF r] show "m s' = m s + shape0 x"
    by auto
next
  assume "reachable nonempty d s"
  from reachable_count_positive [OF this] show "m s = 0 \<longleftrightarrow> first_pass s"
    by auto
qed

theorem count_accounting_witness:
  "reachable any_batch 2
     \<lparr>vars = [Fin 1, Fin 0], means = [Fin 1, Fin 0], m = 2, n = 0, first_pass = False\<rparr>
   \<and> reachable nonempty 2
     \<lparr>vars = [Fin 1, Fin 0], means = [Fin 1, Fin 0], m = 2, n = 0, first_pass = False\<rparr>
   \<and> update \<lparr>vars = [Fin 1, Fin 0], means = [Fin 1, Fin 0], m = 2, n = 0,
               first_pass = False\<rparr> \<lparr>ncols = 2, rows = [[4, 0], [6, 0]]\<rparr>
       = (Inr (), \<lparr>vars = [Fin 5, Fin 0], means = [Fin 3, Fin 0], m = 4, n = 0,
                    first_pass = False\<rparr>)
   \<and> m \<lparr>vars = [Fin 5, Fin 0], means = [Fin 3, Fin 0], m = 4, n = 0,
          first_pass = False\<rparr>
       = m \<lparr>vars = [Fin 1, Fin 0], means = [Fin 1, Fin 0], m = 2, n = 0,
             first_pass = False\<rparr> + shape0 \<lparr>ncols = 2, rows = [[4, 0], [6, 0]]\<rparr>
   \<and> (m \<lparr>vars = [Fin 1, Fin 0], means = [Fin 1, Fin 0], m = 2, n = 0,
           first_pass = False\<rparr> = 0)
       = first_pass \<lparr>vars = [Fin 1, Fin 0], means = [Fin 1, Fin 0], m = 2, n = 0,
                      first_pass = False\<rparr>"
proof -
  let ?x = "\<lparr>ncols = 2, rows = [[0, 0], [2, 0::real]]\<rparr>"
  let ?y = "\<lparr>ncols = 2, rows = [[4, 0], [6, 0::real]]\<rparr>"
  let ?s = "\<lparr>vars = [Fin 1, Fin 0], means = [Fin 1, Fin 0], m = 2, n = 0,
             first_pass = False\<rparr>"
  let ?t = "\<lparr>vars = [Fin 5, Fin 0], means = [Fin 3, Fin 0], m = 4, n = 0,
             first_pass = False\<rparr>"
  have u: "update (Scaler_init 2) ?x = (Inr (), ?s)"
    by (simp add: update_def Scaler_init_def np_mean_def np_var_def mean1_def var1_def
        column_def fsum_def of_pyint_def shape0_def upt_rec numeral_2_eq_2)
  have v: "update ?s ?y = (Inr (), ?t)"
    by (simp add: update_def new_means_expr_def vars_expr_def broadcast_def and_then_def
        arr_scalar_def scalar_arr_def np_square_def np_maximum_def
        np_mean_def np_var_def mean1_def var1_def
        column_def fsum_def of_pyint_def shape0_def upt_rec numeral_2_eq_2)
  have a: "reachable any_batch 2 ?s"
    by (rule reachable.call [where P = any_batch, OF reachable.construct _ u])
      (simp add: any_batch_def)
  have b: "reachable nonempty 2 ?s"
    by (rule reachable.call [where P = nonempty, OF reachable.construct _ u])
      (simp add: nonempty_def)
  from count_accounting [of 2 ?s] a b v show ?thesis by blast
qed

text \<open>
  C9, as stated, fails. \<open>Scaler(1)\<close> absorbs a batch of no rows: the call returns, the
  count is still 0, and \<open>first_pass\<close> is off.
\<close>

theorem count_zero_after_empty_batch:
  "update (Scaler_init 1) \<lparr>ncols = 1, rows = []\<rparr>
     = (Inr (), \<lparr>vars = [NaN], means = [NaN], m = 0, n = 0, first_pass = False\<rparr>)
   \<and> m (snd (update (Scaler_init 1) \<lparr>ncols = 1, rows = []\<rparr>)) = 0
   \<and> \<not> first_pass (snd (update (Scaler_init 1) \<lparr>ncols = 1, rows = []\<rparr>))"
  by (simp add: update_def Scaler_init_def np_mean_def np_var_def mean1_def var1_def
      column_def fsum_def of_pyint_def shape0_def)

section \<open>The sign of the variance\<close>















section \<open>The first batch\<close>



section \<open>The read-out\<close>





lemma population_mean_replicate: "0 < k \<Longrightarrow> population_mean (replicate k c) = c"
  by (simp add: population_mean_def sum_list_replicate)

lemma population_variance_replicate: "0 < k \<Longrightarrow> population_variance (replicate k c) = 0"
  by (simp add: population_variance_def population_mean_replicate sum_list_replicate)

lemma map_over_indices: "map (\<lambda>j. f (xs ! j)) [0..<length xs] = map f xs"
  by (rule nth_equalityI) simp_all

lemma get_zero_variance:
  "vars s = replicate d (Fin 0) \<Longrightarrow>
   fst (get s) = (replicate d (Fin (1 / (1 / 10) / 3)), means s)"
  by (simp add: get_def arr_scalar_def scalar_arr_def np_sqrt_def)

lemma sqrt_pow2_m112: "sqrt (1 / 5192296858534827628530496329220096) = 1 / 72057594037927936"
  by (rule real_sqrt_unique) (simp_all add: power2_eq_square)

lemma f64_zero_scale:
  "f64_div (f64_div (Fin 1) (f64_add (f64_sqrt (Fin 0)) (rnd (1 / 10)))) (Fin 3)
   = Fin (7505999378950827 / 2251799813685248)"
  by (simp add: f64_div_def f64_add_def f64_sqrt_def rnd_tenth rnd_0 rounded)

lemma f64_get_zero_variance:
  "vars s = replicate d (Fin 0) \<Longrightarrow>
   fst (f64_get s) = (replicate d (Fin (7505999378950827 / 2251799813685248)), means s)"
  by (simp add: f64_get_def arr_scalar_def scalar_arr_def f64_np_sqrt_def f64_zero_scale)

lemma f64_sum_zeros: "f64_sum (replicate k (Fin 0)) = Fin 0"
proof -
  have "foldl f64_add (Fin 0) (replicate k (Fin 0)) = Fin 0"
    by (induction k) (simp_all add: f64_add_def rnd_0)
  then show ?thesis by (simp add: f64_sum_def)
qed

lemma zero_over_count:
  assumes "0 < k"
  shows "f64_div (Fin 0) (f64_of_pyint (int k)) = Fin 0"
proof -
  have "of_int 1 * pow2 0 \<le> real k" using assms by (simp add: pow2_def)
  moreover have "0 < real k" using assms by simp
  ultimately have "rnd (real k) = PInf \<or> (\<exists>r. rnd (real k) = Fin r \<and> of_int 1 * pow2 0 \<le> r)"
    by (intro rnd_ge) simp_all
  then show ?thesis by (auto simp: f64_div_def f64_of_pyint_def rnd_0 pow2_def)
qed

text \<open>Equal entries whose mean comes out as the entry have the variance 0.\<close>

lemma f64_var1_identical:
  assumes "0 < k" "f64_mean1 (replicate k (Fin r)) = Fin r"
  shows "f64_var1 (replicate k (Fin r)) = Fin 0"
  using assms
  by (simp add: f64_var1_def Let_def f64_sub_def f64_mul_def rnd_0 f64_sum_zeros
      zero_over_count)

lemma f64_mean1_single: "rnd r = Fin r \<Longrightarrow> f64_mean1 [Fin r] = Fin r"
  by (simp add: f64_mean1_def f64_sum_def f64_add_def f64_div_def f64_of_pyint_def rnd_1)

lemma f64_identical_rows:
  assumes k: "0 < k"
    and e: "\<forall>c\<in>set row. \<exists>r. c = Fin r \<and> f64_mean1 (replicate k c) = c"
  shows "\<exists>s. f64_update (Scaler_init d) \<lparr>f64_ncols = length row, f64_rows = replicate k row\<rparr>
               = (Inr (), s)
           \<and> vars s = replicate (length row) (Fin 0)
           \<and> fst (f64_get s)
               = (replicate (length row) (Fin (7505999378950827 / 2251799813685248)), row)"
proof -
  let ?x = "\<lparr>f64_ncols = length row, f64_rows = replicate k row\<rparr>"
  let ?s = "(Scaler_init d)\<lparr>means := row, vars := replicate (length row) (Fin 0),
                             m := int k, first_pass := False\<rparr>"
  have c: "f64_column ?x j = replicate k (row ! j)" for j
    by (simp add: f64_column_def)
  have "map (\<lambda>j. f64_mean1 (replicate k (row ! j))) [0..<length row]
        = map (\<lambda>j. row ! j) [0..<length row]"
    using e by (intro map_cong) auto
  then have mean: "f64_np_mean ?x = row"
    by (simp add: f64_np_mean_def c map_nth)
  have "map (\<lambda>j. f64_var1 (replicate k (row ! j))) [0..<length row]
        = map (\<lambda>j. Fin 0) [0..<length row]"
  proof (intro map_cong refl)
    fix j assume "j \<in> set [0..<length row]"
    then have "row ! j \<in> set row" by simp
    with e obtain r where "row ! j = Fin r" "f64_mean1 (replicate k (Fin r)) = Fin r"
      by metis
    then show "f64_var1 (replicate k (row ! j)) = Fin 0"
      using f64_var1_identical [OF k] by simp
  qed
  then have var: "f64_np_var ?x = replicate (length row) (Fin 0)"
    by (simp add: f64_np_var_def c map_replicate_const)
  have u: "f64_update (Scaler_init d) ?x = (Inr (), ?s)"
    by (simp add: f64_update_def Scaler_init_def mean var f64_shape0_def)
  have "fst (f64_get ?s)
        = (replicate (length row) (Fin (7505999378950827 / 2251799813685248)), row)"
    using f64_get_zero_variance [of ?s "length row"] by simp
  with u show ?thesis by simp
qed

text \<open>
  C7, as the code has it. \<open>get\<close> on a new Scaler of \<open>d\<close> columns returns the offset 0 and
  the scale \<open>1 / 0.1 / 3\<close> in each of the \<open>d\<close> columns: \<open>10/3\<close> in exact arithmetic, the
  double \<open>3.3333333333333335\<close> in binary64. After one call of \<open>update\<close> on a new Scaler
  with a batch of \<open>k \<ge> 1\<close> copies of one row, the call returns, the variance is 0 and
  the scale is \<open>1 / 0.1 / 3\<close> in every column, and the offset is the row: in exact
  arithmetic for every \<open>k\<close>; in binary64 for every batch of a single row of finite
  doubles.
\<close>

theorem zero_variance_read_out:
  "fst (get (Scaler_init d)) = (replicate d (Fin (1 / (1 / 10) / 3)), replicate d (Fin 0))
   \<and> f64_div (f64_div (Fin 1) (rnd (1 / 10))) (Fin 3)
       = Fin (7505999378950827 / 2251799813685248)
   \<and> fst (f64_get (Scaler_init d))
       = (replicate d (Fin (7505999378950827 / 2251799813685248)), replicate d (Fin 0))
   \<and> (0 < k \<longrightarrow>
        (\<exists>s. update (Scaler_init d) \<lparr>ncols = length row, rows = replicate k row\<rparr>
                = (Inr (), s)
            \<and> vars s = replicate (length row) (Fin 0)
            \<and> fst (get s) = (replicate (length row) (Fin (1 / (1 / 10) / 3)), map Fin row)))
   \<and> ((\<forall>c\<in>set frow. \<exists>r. c = Fin r \<and> rnd r = Fin r) \<longrightarrow>
        (\<exists>s. f64_update (Scaler_init d) \<lparr>f64_ncols = length frow, f64_rows = [frow]\<rparr>
                = (Inr (), s)
            \<and> vars s = replicate (length frow) (Fin 0)
            \<and> fst (f64_get s)
                = (replicate (length frow) (Fin (7505999378950827 / 2251799813685248)),
                   frow)))"
proof (intro conjI impI)
  show "fst (get (Scaler_init d))
        = (replicate d (Fin (1 / (1 / 10) / 3)), replicate d (Fin 0))"
    using get_zero_variance [of "Scaler_init d" d] by (simp add: Scaler_init_def)
next
  show "f64_div (f64_div (Fin 1) (rnd (1 / 10))) (Fin 3)
        = Fin (7505999378950827 / 2251799813685248)"
    by (simp add: f64_div_def rnd_tenth rounded)
next
  show "fst (f64_get (Scaler_init d))
        = (replicate d (Fin (7505999378950827 / 2251799813685248)), replicate d (Fin 0))"
    using f64_get_zero_variance [of "Scaler_init d" d] by (simp add: Scaler_init_def)
next
  assume k: "0 < k"
  let ?x = "\<lparr>ncols = length row, rows = replicate k row\<rparr>"
  let ?s = "(Scaler_init d)\<lparr>means := map Fin row, vars := replicate (length row) (Fin 0),
                             m := int k, first_pass := False\<rparr>"
  have c: "column ?x j = replicate k (row ! j)" for j
    by (simp add: column_def)
  have ne: "rows ?x \<noteq> []" using k by simp
  have mean: "np_mean ?x = map Fin row"
    unfolding np_mean_Fin [OF ne] c
    using k by (simp add: population_mean_replicate map_over_indices)
  have var: "np_var ?x = replicate (length row) (Fin 0)"
    unfolding np_var_Fin [OF ne] c
    using k by (simp add: population_variance_replicate map_replicate_const)
  have u: "update (Scaler_init d) ?x = (Inr (), ?s)"
    by (simp add: update_def Scaler_init_def mean var shape0_def)
  have "fst (get ?s) = (replicate (length row) (Fin (1 / (1 / 10) / 3)), map Fin row)"
    using get_zero_variance [of ?s "length row"] by simp
  with u show "\<exists>s. update (Scaler_init d) ?x = (Inr (), s)
            \<and> vars s = replicate (length row) (Fin 0)
            \<and> fst (get s) = (replicate (length row) (Fin (1 / (1 / 10) / 3)), map Fin row)"
    by simp
next
  assume "\<forall>c\<in>set frow. \<exists>r. c = Fin r \<and> rnd r = Fin r"
  then have "\<forall>c\<in>set frow. \<exists>r. c = Fin r \<and> f64_mean1 (replicate 1 c) = c"
    by (auto simp: f64_mean1_single)
  from f64_identical_rows [OF _ this, of d]
  show "\<exists>s. f64_update (Scaler_init d) \<lparr>f64_ncols = length frow, f64_rows = [frow]\<rparr>
                = (Inr (), s)
            \<and> vars s = replicate (length frow) (Fin 0)
            \<and> fst (f64_get s)
                = (replicate (length frow) (Fin (7505999378950827 / 2251799813685248)),
                   frow)"
    by simp
qed

theorem zero_variance_read_out_witness:
  "fst (get (Scaler_init 2)) = ([Fin (10 / 3), Fin (10 / 3)], [Fin 0, Fin 0])
   \<and> fst (f64_get (Scaler_init 2))
       = ([Fin (7505999378950827 / 2251799813685248),
           Fin (7505999378950827 / 2251799813685248)], [Fin 0, Fin 0])
   \<and> (0::nat) < 3
   \<and> (\<exists>s. update (Scaler_init 2) \<lparr>ncols = 2, rows = [[5, 7], [5, 7], [5, 7]]\<rparr>
             = (Inr (), s)
         \<and> vars s = [Fin 0, Fin 0]
         \<and> fst (get s) = ([Fin (10 / 3), Fin (10 / 3)], [Fin 5, Fin 7]))
   \<and> rnd 5 = Fin 5 \<and> rnd 7 = Fin 7
   \<and> (\<exists>s. f64_update (Scaler_init 2) \<lparr>f64_ncols = 2, f64_rows = [[Fin 5, Fin 7]]\<rparr>
             = (Inr (), s)
         \<and> vars s = [Fin 0, Fin 0]
         \<and> fst (f64_get s)
             = ([Fin (7505999378950827 / 2251799813685248),
                 Fin (7505999378950827 / 2251799813685248)], [Fin 5, Fin 7]))"
proof -
  have b: "rnd 5 = Fin 5" "rnd 7 = Fin 7"
    by (simp_all add: rnd_numeral)
  show ?thesis
    using b zero_variance_read_out [of 2 3 "[5, 7]" "[Fin 5, Fin 7]"]
    by (simp add: numeral_2_eq_2 numeral_3_eq_3)
qed

text \<open>
  C7, as stated, fails in binary64. Three rows \<open>[0.1]\<close>: the sum \<open>0.1 + 0.1 + 0.1\<close> is
  rounded, the mean is \<open>0.1 + 2^-56\<close>, the variance \<open>2^-112\<close> and the scale
  \<open>3.3333333333333326\<close>, not the \<open>3.3333333333333335\<close> of a zero variance. Two rows
  \<open>[2^1023]\<close>: the sum overflows, the variance is \<open>+inf\<close> and the scale \<open>0.0\<close>.
\<close>

theorem identical_rows_leave_a_variance:
  "rnd (1 / 10) = Fin (3602879701896397 / 36028797018963968)
   \<and> f64_update (Scaler_init 1)
        \<lparr>f64_ncols = 1, f64_rows = [[rnd (1 / 10)], [rnd (1 / 10)], [rnd (1 / 10)]]\<rparr>
      = (Inr (), \<lparr>vars = [Fin (1 / 5192296858534827628530496329220096)],
                   means = [Fin (7205759403792795 / 72057594037927936)], m = 3, n = 0,
                   first_pass = False\<rparr>)
   \<and> fst (f64_get \<lparr>vars = [Fin (1 / 5192296858534827628530496329220096)],
                     means = [Fin (7205759403792795 / 72057594037927936)], m = 3, n = 0,
                     first_pass = False\<rparr>)
      = ([Fin (7505999378950825 / 2251799813685248)],
         [Fin (7205759403792795 / 72057594037927936)])
   \<and> f64_div (f64_div (Fin 1) (rnd (1 / 10))) (Fin 3)
      = Fin (7505999378950827 / 2251799813685248)
   \<and> rnd (pow2 1023) = Fin (pow2 1023)
   \<and> f64_update (Scaler_init 1)
        \<lparr>f64_ncols = 1, f64_rows = [[Fin (pow2 1023)], [Fin (pow2 1023)]]\<rparr>
      = (Inr (), \<lparr>vars = [PInf], means = [PInf], m = 2, n = 0, first_pass = False\<rparr>)
   \<and> fst (f64_get \<lparr>vars = [PInf], means = [PInf], m = 2, n = 0, first_pass = False\<rparr>)
      = ([Fin 0], [PInf])"
  by (simp add: f64_eval Scaler_init_def rnd_minus rounded sqrt_pow2_m112)

text \<open>
  C8. Read-out purity. \<open>get\<close> leaves the object as it was, and a second call right
  after the first returns the same pair.
\<close>

theorem read_out_pure:
  "snd (get s) = s \<and> fst (get (snd (get s))) = fst (get s)"
  by (simp add: get_def)

theorem read_out_pure_witness:
  "snd (get (Scaler_init 2)) = Scaler_init 2
   \<and> fst (get (snd (get (Scaler_init 2)))) = fst (get (Scaler_init 2))"
  using read_out_pure [of "Scaler_init 2"] by simp

section \<open>The bounds of the scale\<close>








end
